theory Spec2Isabelle
  imports Main
begin

section \<open>Data model\<close>

text \<open>
  The handler of the nidhogg controller exists in the sources in two versions, both
  in \<^verbatim>\<open>src/unnamed/part_000\<close>:
  \<^item> lines 1-202: one shared taint key \<^verbatim>\<open>nidhogg.uswitch.com\<close> with the workload
    \<^verbatim>\<open>namespace/name\<close> as the taint's value, a sweep of the owned taints that no
    workload kept, and a first-time-ready annotation;
  \<^item> lines 203-381: one taint key \<^verbatim>\<open>nidhogg.uswitch.com/namespace.name\<close> per
    workload, no sweep and no annotation.
  The first version keeps the source's names; the definitions of the second carry
  the suffix \<open>_k\<close> (key per workload). What both versions share word for word
  (\<open>getDaemonsetPod\<close>, \<open>NewHandler\<close>, the types) is defined once.
\<close>

text \<open>
  A Go map from strings to strings is the list of its entries, each key once, and read
  with \<open>map_of\<close>. The handler compares maps only between a node and its copy, to
  which it has at most assigned one new key, so the equality of the lists is the
  equality of the maps.
\<close>

type_synonym stringMap = "(string \<times> string) list"

text \<open>\<^verbatim>\<open>m[k] = v\<close> on a map that is not nil.\<close>

fun map_assign :: "string \<Rightarrow> string \<Rightarrow> stringMap \<Rightarrow> stringMap" where
  "map_assign k v [] = [(k, v)]"
| "map_assign k v ((k', v') # m) =
     (if k' = k then (k, v) # m else (k', v') # map_assign k v m)"

text \<open>
  A Go slice is either nil or holds a list; \<^verbatim>\<open>reflect.DeepEqual\<close> tells a nil slice
  from an empty one, and \<open>removeTaint\<close> returns nil on purpose. \<open>None\<close> is nil.
\<close>

type_synonym 'a slice = "'a list option"

text \<open>\<^verbatim>\<open>for _, x := range s\<close>: a nil slice has no elements.\<close>

definition elems :: "'a slice \<Rightarrow> 'a list" where
  "elems s = (case s of None \<Rightarrow> [] | Some xs \<Rightarrow> xs)"

text \<open>Go's builtin \<^verbatim>\<open>append(s, x)\<close>: the result is never nil.\<close>

definition append_slice :: "'a slice \<Rightarrow> 'a \<Rightarrow> 'a slice" where
  "append_slice s x = Some (elems s @ [x])"

text \<open>\<^verbatim>\<open>corev1.Taint\<close>: key, value, effect and the time the taint was added.\<close>

record Taint =
  Key :: string
  Value :: string
  Effect :: string
  TimeAdded :: "string option"

text \<open>\<^verbatim>\<open>Daemonset\<close> (lines 39-42) and \<^verbatim>\<open>HandlerConfig\<close> (lines 32-36).\<close>

record Daemonset =
  Name :: string
  Namespace :: string

record HandlerConfig =
  Daemonsets :: "Daemonset list"
  NodeSelector :: stringMap
  NodeRejecter :: stringMap

text \<open>\<^verbatim>\<open>taintChanges\<close> (lines 44-47).\<close>

record taintChanges =
  taintsAdded :: "string list"
  taintsRemoved :: "string list"

text \<open>
  The fields of \<^verbatim>\<open>corev1.Node\<close> that the handler reads or writes. The annotations
  are a Go map that may be nil (\<open>None\<close>): reading a nil map finds nothing, writing to
  it panics.
\<close>

record Node =
  Name :: string
  UID :: string
  Labels :: stringMap
  Annotations :: "stringMap option"
  Taints :: "Taint slice"

text \<open>The fields of \<^verbatim>\<open>corev1.Pod\<close> that the handler reads: the names of the owner
  references, \<^verbatim>\<open>Spec.NodeName\<close> and the \<^verbatim>\<open>Ready\<close> flag of every container status.\<close>

record Pod =
  OwnerReferences :: "string list"
  NodeName :: string
  ContainerStatuses :: "bool list"

datatype error = Error (message: string)

text \<open>The arguments of one \<^verbatim>\<open>recorder.Eventf\<close> call.\<close>

datatype eventArg = Strings "string list" | Flag bool | Quoted string

record Event =
  object :: Node
  eventtype :: string
  reason :: string
  messageFmt :: string
  args :: "eventArg list"

text \<open>
  \<^verbatim>\<open>Handler\<close> (lines 22-29). The API client and the event recorder are injected
  collaborators: \<open>List\<close> answers the pod list of a namespace or an error, \<open>Update\<close>
  and \<open>Eventf\<close> act on the state \<open>'w\<close> of the world outside the handler, which the
  handler itself never inspects. A \<^verbatim>\<open>labels.Selector\<close> is its \<^verbatim>\<open>Matches\<close> method.
\<close>

type_synonym Selector = "stringMap \<Rightarrow> bool"

record 'w Handler =
  List :: "string \<Rightarrow> error + Pod list"
  Update :: "Node \<Rightarrow> 'w \<Rightarrow> error option \<times> 'w"
  Eventf :: "Event \<Rightarrow> 'w \<Rightarrow> 'w"
  config :: HandlerConfig
  nodeSelector :: Selector
  nodeRejecter :: Selector

text \<open>A call either returns a value or panics.\<close>

datatype 'a go = Panics | Returns 'a

section \<open>What both versions share\<close>

definition taintKey :: string where
  "taintKey = ''nidhogg.uswitch.com''"

text \<open>\<^verbatim>\<open>strings.HasPrefix(s, prefix)\<close>.\<close>

definition HasPrefix :: "string \<Rightarrow> string \<Rightarrow> bool" where
  "HasPrefix s pre = (take (length pre) s = pre)"

text \<open>
  Modelled from the spec: \<^verbatim>\<open>labels.SelectorFromSet\<close> and \<^verbatim>\<open>Selector.Matches\<close> belong to
  the vendored \<^verbatim>\<open>k8s.io/apimachinery/pkg/labels\<close>, which is not under src/. The spec
  (section 6): exact-match label selection, "all key/value pairs in the selector must
  be present and equal on the target's label set for a match". The selector of the
  empty set therefore matches every label set, which is also what the library documents
  (a nil or empty set is equivalent to \<^verbatim>\<open>Everything()\<close>).
\<close>

definition SelectorFromSet :: "stringMap \<Rightarrow> Selector" where
  "SelectorFromSet ls = (\<lambda>labelSet. list_all (\<lambda>(k, v). map_of labelSet k = Some v) ls)"

text \<open>\<^verbatim>\<open>NewHandler\<close> (lines 50-58), the client \<open>c\<close> given by its three methods.\<close>

definition NewHandler ::
  "(string \<Rightarrow> error + Pod list) \<Rightarrow> (Node \<Rightarrow> 'w \<Rightarrow> error option \<times> 'w) \<Rightarrow>
   (Event \<Rightarrow> 'w \<Rightarrow> 'w) \<Rightarrow> HandlerConfig \<Rightarrow> 'w Handler" where
  "NewHandler cList cUpdate r conf =
     \<lparr>List = cList, Update = cUpdate, Eventf = r, config = conf,
      nodeSelector = SelectorFromSet (NodeSelector conf),
      nodeRejecter = SelectorFromSet (NodeRejecter conf)\<rparr>"

text \<open>Lines 65-69 of \<open>HandleNode\<close> (264-269 in the second version): the workloads
  looked at in this pass, none when the node is out of scope.\<close>

definition scopedDaemonsets :: "'w Handler \<Rightarrow> Node \<Rightarrow> Daemonset list" where
  "scopedDaemonsets h instance =
     (if nodeSelector h (Labels instance) \<and> \<not> nodeRejecter h (Labels instance)
      then Daemonsets (config h) else [])"

text \<open>\<open>getDaemonsetPod\<close> (lines 148-167): the first pod of the namespace that has an
  owner of the workload's name and is bound to the node; nil when there is none.\<close>

definition getDaemonsetPod :: "'w Handler \<Rightarrow> string \<Rightarrow> Daemonset \<Rightarrow> error + Pod option" where
  "getDaemonsetPod h nodeName ds =
     (case List h (Namespace ds) of
        Inl err \<Rightarrow> Inl err
      | Inr pods \<Rightarrow>
          Inr (find (\<lambda>pod. Daemonset.Name ds \<in> set (OwnerReferences pod) \<and> NodeName pod = nodeName)
                 pods))"

text \<open>Lines 87-101 (275-289): update the node and record the event only when the
  copy differs from the instance.\<close>

definition updateIfChanged ::
  "'w Handler \<Rightarrow> Node \<Rightarrow> Node \<Rightarrow> string \<Rightarrow> eventArg list \<Rightarrow> 'w \<Rightarrow> error option go \<times> 'w" where
  "updateIfChanged h nodeCopy instance fmt as w =
     (if nodeCopy \<noteq> instance then
        (case Update h nodeCopy w of
           (Some err, w') \<Rightarrow> (Returns (Some err), w')
         | (None, w') \<Rightarrow>
             (Returns None,
              Eventf h \<lparr>object = nodeCopy\<lparr>UID := Node.Name nodeCopy\<rparr>, eventtype = ''Normal'',
                        reason = ''TaintsChanged'', messageFmt = fmt, args = as\<rparr> w'))
      else (Returns None, w))"

section \<open>First version: shared key, workload in the value (lines 1-202)\<close>

text \<open>\<open>podReady\<close> (lines 169-176).\<close>

definition podReady :: "Pod \<Rightarrow> bool" where
  "podReady pod = list_all (\<lambda>ready. ready) (ContainerStatuses pod)"

text \<open>\<open>addTaint\<close> (lines 178-184).\<close>

definition addTaint :: "Taint slice \<Rightarrow> string \<Rightarrow> Taint slice" where
  "addTaint taints taintValue =
     append_slice taints
       \<lparr>Key = taintKey, Value = taintValue, Effect = ''NoSchedule'', TimeAdded = None\<rparr>"

text \<open>\<open>removeTaint\<close> (lines 186-202).\<close>

definition removeTaint :: "Taint slice \<Rightarrow> string \<Rightarrow> Taint slice" where
  "removeTaint taints taintValue =
     (let newTaints = filter (\<lambda>taint. \<not> (Key taint = taintKey \<and> Value taint = taintValue))
                        (elems taints)
      in if length newTaints = 0 then None else Some newTaints)"

text \<open>
  The map \<^verbatim>\<open>taintsToRemove\<close> of type \<^verbatim>\<open>map[string]struct{}\<close> is the list of its keys,
  without repetition, in the order they were first stored.
\<close>

definition map_store :: "string \<Rightarrow> string list \<Rightarrow> string list" where
  "map_store k m = (if k \<in> set m then m else m @ [k])"

definition map_delete :: "string \<Rightarrow> string list \<Rightarrow> string list" where
  "map_delete k m = removeAll k m"

text \<open>Lines 110-117: the keys of the taints that carry the prefix.\<close>

fun collectTaintsToRemove :: "Taint list \<Rightarrow> string list \<Rightarrow> string list" where
  "collectTaintsToRemove [] taintsToRemove = taintsToRemove"
| "collectTaintsToRemove (taint # rest) taintsToRemove =
     collectTaintsToRemove rest
       (if HasPrefix (Key taint) taintKey then map_store (Key taint) taintsToRemove
        else taintsToRemove)"

text \<open>Lines 118-140: the loop over the workloads, on the state
  (\<open>nodeCopy\<close>, \<open>changes\<close>, \<open>taintsToRemove\<close>).\<close>

fun daemonsetLoop ::
  "'w Handler \<Rightarrow> string \<Rightarrow> Daemonset list \<Rightarrow> Node \<times> taintChanges \<times> string list \<Rightarrow>
   error + Node \<times> taintChanges \<times> string list" where
  "daemonsetLoop h nodeName [] st = Inr st"
| "daemonsetLoop h nodeName (daemonset # rest) (nodeCopy, changes, taintsToRemove) =
     (let taint = Namespace daemonset @ ''/'' @ Daemonset.Name daemonset in
      case getDaemonsetPod h nodeName daemonset of
        Inl err \<Rightarrow> Inl (Error (''error fetching pods: '' @ message err))
      | Inr pod \<Rightarrow>
          if (case pod of None \<Rightarrow> False | Some p \<Rightarrow> podReady p)
          then daemonsetLoop h nodeName rest (nodeCopy, changes, taintsToRemove)
          else if taint \<in> set taintsToRemove
          then daemonsetLoop h nodeName rest (nodeCopy, changes, map_delete taint taintsToRemove)
          else daemonsetLoop h nodeName rest
                 (nodeCopy\<lparr>Taints := addTaint (Taints nodeCopy) taint\<rparr>,
                  changes\<lparr>taintsAdded := taintsAdded changes @ [taint]\<rparr>,
                  taintsToRemove))"

text \<open>Lines 141-144: the sweep over what is left in \<^verbatim>\<open>taintsToRemove\<close>. Go leaves the
  order of a map's keys open; the model takes them as stored (\<open>sweepLoop_order\<close> below
  shows that the node does not depend on the order).\<close>

fun sweepLoop :: "string list \<Rightarrow> Node \<times> taintChanges \<Rightarrow> Node \<times> taintChanges" where
  "sweepLoop [] st = st"
| "sweepLoop (taint # rest) (nodeCopy, changes) =
     sweepLoop rest
       (nodeCopy\<lparr>Taints := removeTaint (Taints nodeCopy) taint\<rparr>,
        changes\<lparr>taintsRemoved := taintsRemoved changes @ [taint]\<rparr>)"

text \<open>\<open>calculateTaints\<close> (lines 104-146). \<^verbatim>\<open>DeepCopy\<close> gives an equal node.\<close>

definition calculateTaints ::
  "'w Handler \<Rightarrow> Node \<Rightarrow> Daemonset list \<Rightarrow> error + Node \<times> taintChanges" where
  "calculateTaints h instance daemonsets =
     (let nodeCopy = instance;
          changes = \<lparr>taintsAdded = [], taintsRemoved = []\<rparr>;
          taintsToRemove = collectTaintsToRemove (elems (Taints nodeCopy)) []
      in case daemonsetLoop h (Node.Name instance) daemonsets (nodeCopy, changes, taintsToRemove) of
           Inl err \<Rightarrow> Inl err
         | Inr (nodeCopy', changes', taintsToRemove') \<Rightarrow>
             Inr (sweepLoop taintsToRemove' (nodeCopy', changes')))"

text \<open>Lines 75-80: no taint of the node carries the prefix.\<close>

definition taintLess :: "Node \<Rightarrow> bool" where
  "taintLess nodeCopy =
     list_all (\<lambda>taint. \<not> HasPrefix (Key taint) taintKey) (elems (Taints nodeCopy))"

definition firstTimeReadyKey :: string where
  "firstTimeReadyKey = taintKey @ ''/first-time-ready''"

text \<open>Line 81: reading the annotation; a nil map, like a missing key, gives the
  empty string and \<^verbatim>\<open>ok = false\<close>.\<close>

definition lookupAnnotation :: "Node \<Rightarrow> string \<Rightarrow> string \<times> bool" where
  "lookupAnnotation nodeCopy k =
     (case Annotations nodeCopy of
        None \<Rightarrow> ('''', False)
      | Some m \<Rightarrow> (case map_of m k of None \<Rightarrow> ('''', False) | Some v \<Rightarrow> (v, True)))"

text \<open>
  \<open>HandleNode\<close> (lines 61-102). \<open>now\<close> is \<^verbatim>\<open>time.Now()\<close> in the format of line 83; \<open>w\<close>
  is the world before the call. The assignment of line 84 panics when the annotations
  are a nil map. Logging is left out.
\<close>

definition HandleNode :: "'w Handler \<Rightarrow> string \<Rightarrow> Node \<Rightarrow> 'w \<Rightarrow> error option go \<times> 'w" where
  "HandleNode h now instance w =
     (case calculateTaints h instance (scopedDaemonsets h instance) of
        Inl err \<Rightarrow>
          (Returns (Some (Error (''error caluclating taints for node '' @ Node.Name instance
                                  @ '': '' @ message err))), w)
      | Inr (nodeCopy, changes) \<Rightarrow>
          (case lookupAnnotation nodeCopy firstTimeReadyKey of
             (firstTimeReady, ok) \<Rightarrow>
               if \<not> ok \<and> taintLess nodeCopy then
                 (case Annotations nodeCopy of
                    None \<Rightarrow> (Panics, w)
                  | Some m \<Rightarrow>
                      updateIfChanged h
                        (nodeCopy\<lparr>Annotations := Some (map_assign firstTimeReadyKey now m)\<rparr>) instance
                        ''Taints added: %s, Taints removed: %s, TaintLess: %v, FirstTimeReady: %q''
                        [Strings (taintsAdded changes), Strings (taintsRemoved changes),
                         Flag (taintLess nodeCopy), Quoted now] w)
               else
                 updateIfChanged h nodeCopy instance
                   ''Taints added: %s, Taints removed: %s, TaintLess: %v, FirstTimeReady: %q''
                   [Strings (taintsAdded changes), Strings (taintsRemoved changes),
                    Flag (taintLess nodeCopy), Quoted firstTimeReady] w))"

section \<open>Second version: one key per workload (lines 203-381)\<close>

text \<open>\<open>podNotReady\<close> (lines 342-349).\<close>

definition podNotReady :: "Pod \<Rightarrow> bool" where
  "podNotReady pod = list_ex (\<lambda>ready. ready = False) (ContainerStatuses pod)"

text \<open>\<open>taintPresent\<close> (lines 351-359).\<close>

definition taintPresent :: "Node \<Rightarrow> string \<Rightarrow> bool" where
  "taintPresent node taintName = list_ex (\<lambda>taint. Key taint = taintName) (elems (Taints node))"

text \<open>\<open>addTaint\<close> (lines 361-363); the value is the empty string.\<close>

definition addTaint_k :: "Taint slice \<Rightarrow> string \<Rightarrow> Taint slice" where
  "addTaint_k taints taintName =
     append_slice taints
       \<lparr>Key = taintName, Value = '''', Effect = ''NoSchedule'', TimeAdded = None\<rparr>"

text \<open>\<open>removeTaint\<close> (lines 365-381).\<close>

definition removeTaint_k :: "Taint slice \<Rightarrow> string \<Rightarrow> Taint slice" where
  "removeTaint_k taints taintName =
     (let newTaints = filter (\<lambda>taint. Key taint \<noteq> taintName) (elems taints)
      in if length newTaints = 0 then None else Some newTaints)"

text \<open>Line 300: the taint key of a workload.\<close>

definition taintName_k :: "Daemonset \<Rightarrow> string" where
  "taintName_k daemonset =
     taintKey @ ''/'' @ Namespace daemonset @ ''.'' @ Daemonset.Name daemonset"

text \<open>Lines 298-317: the loop over the workloads, on the state (\<open>nodeCopy\<close>, \<open>changes\<close>).\<close>

fun daemonsetLoop_k ::
  "'w Handler \<Rightarrow> string \<Rightarrow> Daemonset list \<Rightarrow> Node \<times> taintChanges \<Rightarrow>
   error + Node \<times> taintChanges" where
  "daemonsetLoop_k h nodeName [] st = Inr st"
| "daemonsetLoop_k h nodeName (daemonset # rest) (nodeCopy, changes) =
     (let taint = taintName_k daemonset in
      case getDaemonsetPod h nodeName daemonset of
        Inl err \<Rightarrow> Inl (Error (''error fetching pods: '' @ message err))
      | Inr pod \<Rightarrow>
          if (case pod of None \<Rightarrow> True | Some p \<Rightarrow> podNotReady p) then
            (if \<not> taintPresent nodeCopy taint
             then daemonsetLoop_k h nodeName rest
                    (nodeCopy\<lparr>Taints := addTaint_k (Taints nodeCopy) taint\<rparr>,
                     changes\<lparr>taintsAdded := taintsAdded changes @ [taint]\<rparr>)
             else daemonsetLoop_k h nodeName rest (nodeCopy, changes))
          else if taintPresent nodeCopy taint
          then daemonsetLoop_k h nodeName rest
                 (nodeCopy\<lparr>Taints := removeTaint_k (Taints nodeCopy) taint\<rparr>,
                  changes\<lparr>taintsRemoved := taintsRemoved changes @ [taint]\<rparr>)
          else daemonsetLoop_k h nodeName rest (nodeCopy, changes))"

text \<open>The condition of line 307 for a workload, on the answer of its pod lookup: the
  pod is missing or one of its containers is not ready.\<close>

definition unready :: "'w Handler \<Rightarrow> string \<Rightarrow> Daemonset \<Rightarrow> bool" where
  "unready h nodeName d =
     (case getDaemonsetPod h nodeName d of
        Inl err \<Rightarrow> False
      | Inr None \<Rightarrow> True
      | Inr (Some p) \<Rightarrow> podNotReady p)"

text \<open>\<open>calculateTaints\<close> (lines 292-319).\<close>

definition calculateTaints_k ::
  "'w Handler \<Rightarrow> Node \<Rightarrow> Daemonset list \<Rightarrow> error + Node \<times> taintChanges" where
  "calculateTaints_k h instance daemonsets =
     daemonsetLoop_k h (Node.Name instance) daemonsets
       (instance, \<lparr>taintsAdded = [], taintsRemoved = []\<rparr>)"

text \<open>\<open>HandleNode\<close> (lines 261-290).\<close>

definition HandleNode_k :: "'w Handler \<Rightarrow> Node \<Rightarrow> 'w \<Rightarrow> error option go \<times> 'w" where
  "HandleNode_k h instance w =
     (case calculateTaints_k h instance (scopedDaemonsets h instance) of
        Inl err \<Rightarrow>
          (Returns (Some (Error (''error caluclating taints for node '' @ Node.Name instance
                                  @ '': '' @ message err))), w)
      | Inr (nodeCopy, changes) \<Rightarrow>
          updateIfChanged h nodeCopy instance ''Taints added: %s, Taints removed: %s''
            [Strings (taintsAdded changes), Strings (taintsRemoved changes)] w)"

section \<open>Concrete inputs\<close>

text \<open>A world that only remembers the calls made on it: the nodes passed to
  \<open>Update\<close> (which succeeds) and the events recorded.\<close>

record world =
  updated :: "Node list"
  recorded :: "Event list"

definition emptyWorld :: world where
  "emptyWorld = \<lparr>updated = [], recorded = []\<rparr>"

definition logUpdate :: "Node \<Rightarrow> world \<Rightarrow> error option \<times> world" where
  "logUpdate node w = (None, w\<lparr>updated := updated w @ [node]\<rparr>)"

definition logEventf :: "Event \<Rightarrow> world \<Rightarrow> world" where
  "logEventf e w = w\<lparr>recorded := recorded w @ [e]\<rparr>"

definition fluentd :: Daemonset where
  "fluentd = \<lparr>Daemonset.Name = ''fluentd'', Namespace = ''kube-system''\<rparr>"

definition fluentdPod :: Pod where
  "fluentdPod = \<lparr>OwnerReferences = [''fluentd''], NodeName = ''node-1'',
                  ContainerStatuses = [True]\<rparr>"

text \<open>Three clusters: no pod anywhere; a ready fluentd pod on node-1; a pod list
  call that fails.\<close>

definition noPods :: "string \<Rightarrow> error + Pod list" where
  "noPods ns = Inr []"

definition readyPods :: "string \<Rightarrow> error + Pod list" where
  "readyPods ns = (if ns = ''kube-system'' then Inr [fluentdPod] else Inr [])"

definition failingList :: "string \<Rightarrow> error + Pod list" where
  "failingList ns = Inl (Error ''connection refused'')"

text \<open>The policy of Scenario A (spec, section 8), with the exclude selector given.\<close>

definition scenarioConfig :: "stringMap \<Rightarrow> HandlerConfig" where
  "scenarioConfig exclude =
     \<lparr>Daemonsets = [fluentd], NodeSelector = [(''role'', ''worker'')], NodeRejecter = exclude\<rparr>"

definition handler :: "(string \<Rightarrow> error + Pod list) \<Rightarrow> stringMap \<Rightarrow> world Handler" where
  "handler pods exclude = NewHandler pods logUpdate logEventf (scenarioConfig exclude)"

definition worker :: Node where
  "worker = \<lparr>Node.Name = ''node-1'', UID = ''6f1c'', Labels = [(''role'', ''worker'')],
             Annotations = Some [], Taints = None\<rparr>"

definition fluentdTaint :: Taint where
  "fluentdTaint = \<lparr>Key = ''nidhogg.uswitch.com'', Value = ''kube-system/fluentd'',
                    Effect = ''NoSchedule'', TimeAdded = None\<rparr>"

definition fluentdTaint_k :: Taint where
  "fluentdTaint_k = \<lparr>Key = ''nidhogg.uswitch.com/kube-system.fluentd'', Value = [],
                      Effect = ''NoSchedule'', TimeAdded = None\<rparr>"

definition kiamTaint :: Taint where
  "kiamTaint = \<lparr>Key = ''nidhogg.uswitch.com'', Value = ''kube-system/kiam'',
                 Effect = ''NoSchedule'', TimeAdded = None\<rparr>"

definition kiamTaint_k :: Taint where
  "kiamTaint_k = \<lparr>Key = ''nidhogg.uswitch.com/kube-system.kiam'', Value = [],
                   Effect = ''NoSchedule'', TimeAdded = None\<rparr>"

definition gpuTaint :: Taint where
  "gpuTaint = \<lparr>Key = ''dedicated'', Value = ''gpu'', Effect = ''NoExecute'',
                TimeAdded = Some ''2019-06-01T10:00:00Z''\<rparr>"

text \<open>A taint under the shared key whose value is that key itself, and a node that
  the include selector of the scenario does not match.\<close>

definition selfTaint :: Taint where
  "selfTaint = \<lparr>Key = ''nidhogg.uswitch.com'', Value = ''nidhogg.uswitch.com'',
                 Effect = ''NoSchedule'', TimeAdded = None\<rparr>"

definition master :: Node where
  "master = \<lparr>Node.Name = ''node-0'', UID = ''a27e'', Labels = [(''role'', ''master'')],
             Annotations = Some [], Taints = None\<rparr>"

section \<open>Properties of the helpers\<close>

lemma HasPrefix_append: "HasPrefix (pre @ s) pre"
  by (simp add: HasPrefix_def)

lemma HasPrefix_self: "HasPrefix pre pre"
  by (simp add: HasPrefix_def)

lemma HasPrefix_taintName_k: "HasPrefix (taintName_k d) taintKey"
  by (simp add: taintName_k_def HasPrefix_append)

lemma elems_append_slice: "elems (append_slice s x) = elems s @ [x]"
  by (simp add: append_slice_def elems_def)

lemma elems_addTaint:
  "elems (addTaint taints v) =
     elems taints @ [\<lparr>Key = taintKey, Value = v, Effect = ''NoSchedule'', TimeAdded = None\<rparr>]"
  by (simp add: addTaint_def elems_append_slice)

lemma elems_removeTaint:
  "elems (removeTaint taints v) =
     filter (\<lambda>taint. \<not> (Key taint = taintKey \<and> Value taint = v)) (elems taints)"
  by (simp add: removeTaint_def elems_def Let_def)

lemma elems_addTaint_k:
  "elems (addTaint_k taints k) =
     elems taints @ [\<lparr>Key = k, Value = [], Effect = ''NoSchedule'', TimeAdded = None\<rparr>]"
  by (simp add: addTaint_k_def elems_append_slice)

lemma elems_removeTaint_k:
  "elems (removeTaint_k taints k) = filter (\<lambda>taint. Key taint \<noteq> k) (elems taints)"
  by (simp add: removeTaint_k_def elems_def Let_def)

text \<open>Evaluation of the concrete inputs.\<close>

lemmas scenario_defs =
  handler_def NewHandler_def scenarioConfig_def SelectorFromSet_def scopedDaemonsets_def
  worker_def fluentd_def fluentdPod_def noPods_def readyPods_def failingList_def
  fluentdTaint_def fluentdTaint_k_def kiamTaint_def kiamTaint_k_def gpuTaint_def taintKey_def
  emptyWorld_def logUpdate_def logEventf_def selfTaint_def master_def

lemmas handle_defs =
  HandleNode_def HandleNode_k_def updateIfChanged_def lookupAnnotation_def
  firstTimeReadyKey_def taintLess_def

lemmas eval_defs =
  calculateTaints_def calculateTaints_k_def getDaemonsetPod_def podReady_def podNotReady_def
  taintPresent_def taintName_k_def addTaint_def addTaint_k_def removeTaint_def removeTaint_k_def
  append_slice_def elems_def map_store_def map_delete_def HasPrefix_def Let_def

section \<open>Taints of other owners\<close>

text \<open>The taints that do not carry the prefix, in their order.\<close>

lemma foreign_addTaint:
  "filter (\<lambda>t. \<not> HasPrefix (Key t) taintKey) (elems (addTaint taints v)) =
   filter (\<lambda>t. \<not> HasPrefix (Key t) taintKey) (elems taints)"
  by (simp add: elems_addTaint HasPrefix_self)

lemma foreign_removeTaint:
  "filter (\<lambda>t. \<not> HasPrefix (Key t) taintKey) (elems (removeTaint taints v)) =
   filter (\<lambda>t. \<not> HasPrefix (Key t) taintKey) (elems taints)"
  by (auto simp: elems_removeTaint HasPrefix_self intro: filter_cong)

lemma foreign_addTaint_k:
  "filter (\<lambda>t. \<not> HasPrefix (Key t) taintKey) (elems (addTaint_k taints (taintName_k d))) =
   filter (\<lambda>t. \<not> HasPrefix (Key t) taintKey) (elems taints)"
  by (simp add: elems_addTaint_k HasPrefix_taintName_k)

lemma foreign_removeTaint_k:
  "filter (\<lambda>t. \<not> HasPrefix (Key t) taintKey) (elems (removeTaint_k taints (taintName_k d))) =
   filter (\<lambda>t. \<not> HasPrefix (Key t) taintKey) (elems taints)"
  by (auto simp: elems_removeTaint_k HasPrefix_taintName_k intro: filter_cong)

lemma daemonsetLoop_foreign:
  "daemonsetLoop h nodeName ds (n, c, m) = Inr (n', c', m') \<Longrightarrow>
   filter (\<lambda>t. \<not> HasPrefix (Key t) taintKey) (elems (Taints n')) =
   filter (\<lambda>t. \<not> HasPrefix (Key t) taintKey) (elems (Taints n))"
proof (induction ds arbitrary: n c m)
  case Nil
  then show ?case by simp
next
  case (Cons d ds)
  then show ?case
    by (auto simp: Let_def foreign_addTaint split: sum.splits if_splits option.splits)
qed

lemma sweepLoop_foreign:
  "sweepLoop ks (n, c) = (n', c') \<Longrightarrow>
   filter (\<lambda>t. \<not> HasPrefix (Key t) taintKey) (elems (Taints n')) =
   filter (\<lambda>t. \<not> HasPrefix (Key t) taintKey) (elems (Taints n))"
proof (induction ks arbitrary: n c)
  case Nil
  then show ?case by simp
next
  case (Cons k ks)
  from Cons.prems have
    "sweepLoop ks (n\<lparr>Taints := removeTaint (Taints n) k\<rparr>,
                   c\<lparr>taintsRemoved := taintsRemoved c @ [k]\<rparr>) = (n', c')"
    by simp
  from Cons.IH[OF this] show ?case by (simp add: foreign_removeTaint)
qed

lemma daemonsetLoop_k_foreign:
  "daemonsetLoop_k h nodeName ds (n, c) = Inr (n', c') \<Longrightarrow>
   filter (\<lambda>t. \<not> HasPrefix (Key t) taintKey) (elems (Taints n')) =
   filter (\<lambda>t. \<not> HasPrefix (Key t) taintKey) (elems (Taints n))"
proof (induction ds arbitrary: n c)
  case Nil
  then show ?case by simp
next
  case (Cons d ds)
  then show ?case
    by (auto simp: Let_def foreign_addTaint_k foreign_removeTaint_k
             split: sum.splits if_splits option.splits)
qed

text \<open>
  C6. In both versions a pass that returns a node neither adds, removes nor reorders
  the taints whose key does not carry the prefix \<^verbatim>\<open>nidhogg.uswitch.com\<close>: filtered to
  those taints, the taint list of the returned node is the taint list of the input.
\<close>

theorem foreign_taints_untouched:
  "(calculateTaints h instance daemonsets = Inr (nodeCopy, changes) \<longrightarrow>
      filter (\<lambda>t. \<not> HasPrefix (Key t) taintKey) (elems (Taints nodeCopy)) =
      filter (\<lambda>t. \<not> HasPrefix (Key t) taintKey) (elems (Taints instance))) \<and>
   (calculateTaints_k h instance daemonsets = Inr (nodeCopy_k, changes_k) \<longrightarrow>
      filter (\<lambda>t. \<not> HasPrefix (Key t) taintKey) (elems (Taints nodeCopy_k)) =
      filter (\<lambda>t. \<not> HasPrefix (Key t) taintKey) (elems (Taints instance)))"
proof (intro conjI impI)
  assume "calculateTaints h instance daemonsets = Inr (nodeCopy, changes)"
  then obtain n1 c1 m1 where
    l: "daemonsetLoop h (Node.Name instance) daemonsets
          (instance, \<lparr>taintsAdded = [], taintsRemoved = []\<rparr>,
           collectTaintsToRemove (elems (Taints instance)) []) = Inr (n1, c1, m1)"
    and s: "sweepLoop m1 (n1, c1) = (nodeCopy, changes)"
    by (auto simp: calculateTaints_def Let_def split: sum.splits)
  from daemonsetLoop_foreign[OF l] sweepLoop_foreign[OF s]
  show "filter (\<lambda>t. \<not> HasPrefix (Key t) taintKey) (elems (Taints nodeCopy)) =
        filter (\<lambda>t. \<not> HasPrefix (Key t) taintKey) (elems (Taints instance))"
    by simp
next
  assume "calculateTaints_k h instance daemonsets = Inr (nodeCopy_k, changes_k)"
  then show "filter (\<lambda>t. \<not> HasPrefix (Key t) taintKey) (elems (Taints nodeCopy_k)) =
             filter (\<lambda>t. \<not> HasPrefix (Key t) taintKey) (elems (Taints instance))"
    using daemonsetLoop_k_foreign by (simp add: calculateTaints_k_def)
qed

theorem foreign_taints_untouched_witness:
  "calculateTaints (handler noPods [(''role'', ''master'')])
       (worker\<lparr>Taints := Some [gpuTaint, kiamTaint]\<rparr>) [fluentd] =
     Inr (worker\<lparr>Taints := Some [gpuTaint, kiamTaint, fluentdTaint]\<rparr>,
          \<lparr>taintsAdded = [''kube-system/fluentd''], taintsRemoved = [''nidhogg.uswitch.com'']\<rparr>) \<and>
   filter (\<lambda>t. \<not> HasPrefix (Key t) taintKey)
       (elems (Taints (worker\<lparr>Taints := Some [gpuTaint, kiamTaint, fluentdTaint]\<rparr>))) =
     filter (\<lambda>t. \<not> HasPrefix (Key t) taintKey)
       (elems (Taints (worker\<lparr>Taints := Some [gpuTaint, kiamTaint]\<rparr>))) \<and>
   calculateTaints_k (handler readyPods [(''role'', ''master'')])
       (worker\<lparr>Taints := Some [fluentdTaint_k, gpuTaint]\<rparr>) [fluentd] =
     Inr (worker\<lparr>Taints := Some [gpuTaint]\<rparr>,
          \<lparr>taintsAdded = [],
             taintsRemoved = [''nidhogg.uswitch.com/kube-system.fluentd'']\<rparr>) \<and>
   filter (\<lambda>t. \<not> HasPrefix (Key t) taintKey)
       (elems (Taints (worker\<lparr>Taints := Some [gpuTaint]\<rparr>))) =
     filter (\<lambda>t. \<not> HasPrefix (Key t) taintKey)
       (elems (Taints (worker\<lparr>Taints := Some [fluentdTaint_k, gpuTaint]\<rparr>)))"
proof -
  have a: "calculateTaints (handler noPods [(''role'', ''master'')])
       (worker\<lparr>Taints := Some [gpuTaint, kiamTaint]\<rparr>) [fluentd] =
     Inr (worker\<lparr>Taints := Some [gpuTaint, kiamTaint, fluentdTaint]\<rparr>,
          \<lparr>taintsAdded = [''kube-system/fluentd''], taintsRemoved = [''nidhogg.uswitch.com'']\<rparr>)"
    by (simp add: scenario_defs eval_defs)
  have b: "calculateTaints_k (handler readyPods [(''role'', ''master'')])
       (worker\<lparr>Taints := Some [fluentdTaint_k, gpuTaint]\<rparr>) [fluentd] =
     Inr (worker\<lparr>Taints := Some [gpuTaint]\<rparr>,
          \<lparr>taintsAdded = [],
             taintsRemoved = [''nidhogg.uswitch.com/kube-system.fluentd'']\<rparr>)"
    by (simp add: scenario_defs eval_defs)
  from a b
    foreign_taints_untouched[THEN conjunct1, rule_format, OF a]
    foreign_taints_untouched[THEN conjunct2, rule_format, OF b]
  show ?thesis by simp
qed

section \<open>A failed pod lookup\<close>

lemma daemonsetLoop_error:
  "\<exists>d\<in>set ds. \<exists>e. List h (Namespace d) = Inl e \<Longrightarrow>
   \<exists>err. daemonsetLoop h nodeName ds st = Inl err"
proof (induction ds arbitrary: st)
  case Nil
  then show ?case by simp
next
  case (Cons d ds)
  obtain n c m where st: "st = (n, c, m)" by (cases st) auto
  show ?case
  proof (cases "getDaemonsetPod h nodeName d")
    case (Inl e)
    then show ?thesis by (simp add: st)
  next
    case (Inr pod)
    then have "\<not> (\<exists>e. List h (Namespace d) = Inl e)"
      by (auto simp: getDaemonsetPod_def)
    with Cons.prems have "\<exists>d\<in>set ds. \<exists>e. List h (Namespace d) = Inl e" by auto
    from Cons.IH[OF this] Inr show ?thesis by (simp add: st Let_def)
  qed
qed

lemma daemonsetLoop_k_error:
  "\<exists>d\<in>set ds. \<exists>e. List h (Namespace d) = Inl e \<Longrightarrow>
   \<exists>err. daemonsetLoop_k h nodeName ds st = Inl err"
proof (induction ds arbitrary: st)
  case Nil
  then show ?case by simp
next
  case (Cons d ds)
  obtain n c where st: "st = (n, c)" by (cases st) auto
  show ?case
  proof (cases "getDaemonsetPod h nodeName d")
    case (Inl e)
    then show ?thesis by (simp add: st)
  next
    case (Inr pod)
    then have "\<not> (\<exists>e. List h (Namespace d) = Inl e)"
      by (auto simp: getDaemonsetPod_def)
    with Cons.prems have "\<exists>d\<in>set ds. \<exists>e. List h (Namespace d) = Inl e" by auto
    from Cons.IH[OF this] Inr show ?thesis by (simp add: st Let_def)
  qed
qed

lemma calculateTaints_error:
  assumes "\<exists>d\<in>set ds. \<exists>e. List h (Namespace d) = Inl e"
  shows "\<exists>err. calculateTaints h instance ds = Inl err"
proof -
  obtain err where
    "daemonsetLoop h (Node.Name instance) ds
       (instance, \<lparr>taintsAdded = [], taintsRemoved = []\<rparr>,
        collectTaintsToRemove (elems (Taints instance)) []) = Inl err"
    using daemonsetLoop_error[OF assms] by blast
  then show ?thesis by (simp add: calculateTaints_def Let_def)
qed

lemma calculateTaints_k_error:
  assumes "\<exists>d\<in>set ds. \<exists>e. List h (Namespace d) = Inl e"
  shows "\<exists>err. calculateTaints_k h instance ds = Inl err"
  using daemonsetLoop_k_error[OF assms] by (simp add: calculateTaints_k_def)

text \<open>
  C7. When the pod list call fails for one of the workloads of the pass, the pass
  returns an error in both versions: \<open>calculateTaints\<close> returns no node, and
  \<open>HandleNode\<close> returns the error with the world as it found it, so neither \<open>Update\<close>
  nor \<open>Eventf\<close> has been called and nothing of the taint calculation is committed.
\<close>

theorem lookup_failure_aborts:
  assumes "\<exists>d\<in>set (scopedDaemonsets h instance). \<exists>e. List h (Namespace d) = Inl e"
  shows "(\<exists>err. calculateTaints h instance (scopedDaemonsets h instance) = Inl err) \<and>
         (\<exists>err. HandleNode h now instance w = (Returns (Some err), w)) \<and>
         (\<exists>err. calculateTaints_k h instance (scopedDaemonsets h instance) = Inl err) \<and>
         (\<exists>err. HandleNode_k h instance w = (Returns (Some err), w))"
proof -
  obtain err where "calculateTaints h instance (scopedDaemonsets h instance) = Inl err"
    using calculateTaints_error[OF assms] by blast
  moreover obtain err' where
    "calculateTaints_k h instance (scopedDaemonsets h instance) = Inl err'"
    using calculateTaints_k_error[OF assms] by blast
  ultimately show ?thesis
    by (simp add: HandleNode_def HandleNode_k_def)
qed

theorem lookup_failure_aborts_witness:
  "scopedDaemonsets (handler failingList [(''role'', ''master'')]) worker = [fluentd] \<and>
   List (handler failingList [(''role'', ''master'')]) (Namespace fluentd) =
     Inl (Error ''connection refused'') \<and>
   (\<exists>err. calculateTaints (handler failingList [(''role'', ''master'')]) worker
            (scopedDaemonsets (handler failingList [(''role'', ''master'')]) worker) = Inl err) \<and>
   (\<exists>err. HandleNode (handler failingList [(''role'', ''master'')]) ''2019-06-01T12:00:00Z''
            worker emptyWorld = (Returns (Some err), emptyWorld)) \<and>
   (\<exists>err. calculateTaints_k (handler failingList [(''role'', ''master'')]) worker
            (scopedDaemonsets (handler failingList [(''role'', ''master'')]) worker) = Inl err) \<and>
   (\<exists>err. HandleNode_k (handler failingList [(''role'', ''master'')]) worker emptyWorld =
            (Returns (Some err), emptyWorld))"
proof -
  have s: "scopedDaemonsets (handler failingList [(''role'', ''master'')]) worker = [fluentd]"
    by (simp add: scenario_defs)
  have l: "List (handler failingList [(''role'', ''master'')]) (Namespace fluentd) =
             Inl (Error ''connection refused'')"
    by (simp add: scenario_defs)
  have "\<exists>d\<in>set (scopedDaemonsets (handler failingList [(''role'', ''master'')]) worker).
          \<exists>e. List (handler failingList [(''role'', ''master'')]) (Namespace d) = Inl e"
    using s l by simp
  from lookup_failure_aborts[OF this, of "''2019-06-01T12:00:00Z''" emptyWorld] s l
  show ?thesis by blast
qed

section \<open>What a pass leaves alone\<close>

text \<open>Both loops of the first version, and the loop of the second, change no field of
  the node but its taints.\<close>

lemma daemonsetLoop_frame:
  "daemonsetLoop h nodeName ds (n, c, m) = Inr (n', c', m') \<Longrightarrow> n' = n\<lparr>Taints := Taints n'\<rparr>"
proof (induction ds arbitrary: n c m)
  case Nil
  then show ?case by simp
next
  case (Cons d ds)
  then show ?case
    by (auto simp: Let_def split: sum.splits if_splits option.splits dest!: Cons.IH)
qed

lemma sweepLoop_frame:
  "sweepLoop ks (n, c) = (n', c') \<Longrightarrow> n' = n\<lparr>Taints := Taints n'\<rparr>"
proof (induction ks arbitrary: n c)
  case Nil
  then show ?case by simp
next
  case (Cons k ks)
  from Cons.prems have
    "sweepLoop ks (n\<lparr>Taints := removeTaint (Taints n) k\<rparr>,
                   c\<lparr>taintsRemoved := taintsRemoved c @ [k]\<rparr>) = (n', c')"
    by simp
  from Cons.IH[OF this] show ?case by simp
qed

lemma calculateTaints_frame:
  assumes "calculateTaints h instance ds = Inr (nodeCopy, changes)"
  shows "nodeCopy = instance\<lparr>Taints := Taints nodeCopy\<rparr>"
proof -
  from assms obtain n1 c1 m1 where
    l: "daemonsetLoop h (Node.Name instance) ds
          (instance, \<lparr>taintsAdded = [], taintsRemoved = []\<rparr>,
           collectTaintsToRemove (elems (Taints instance)) []) = Inr (n1, c1, m1)"
    and s: "sweepLoop m1 (n1, c1) = (nodeCopy, changes)"
    by (auto simp: calculateTaints_def Let_def split: sum.splits)
  from daemonsetLoop_frame[OF l] sweepLoop_frame[OF s] show ?thesis
    by (metis Node.update_convs(5) Node.surjective Node.select_convs)
qed

lemma daemonsetLoop_k_frame:
  "daemonsetLoop_k h nodeName ds (n, c) = Inr (n', c') \<Longrightarrow> n' = n\<lparr>Taints := Taints n'\<rparr>"
proof (induction ds arbitrary: n c)
  case Nil
  then show ?case by simp
next
  case (Cons d ds)
  then show ?case
    by (auto simp: Let_def split: sum.splits if_splits option.splits dest!: Cons.IH)
qed

section \<open>The first-time-ready annotation and the nil map\<close>

lemma updateIfChanged_returns: "fst (updateIfChanged h nodeCopy instance fmt as w) \<noteq> Panics"
  by (simp add: updateIfChanged_def split: prod.splits option.splits)

text \<open>
  C10. \<open>HandleNode\<close> of the first version panics exactly when the taint calculation
  succeeds, the node's annotations are a nil map and the calculated node carries no
  taint with the prefix: line 84 then assigns into the nil map. (A nil map holds no
  first-time-ready annotation, so \<^verbatim>\<open>ok\<close> is false.) In every other case the call
  returns: the annotations being non-nil, or a taint with the prefix remaining, is what
  totality needs.
\<close>

theorem HandleNode_panics_iff:
  "fst (HandleNode h now instance w) = Panics \<longleftrightarrow>
     (\<exists>nodeCopy changes.
        calculateTaints h instance (scopedDaemonsets h instance) = Inr (nodeCopy, changes) \<and>
        Annotations instance = None \<and> taintLess nodeCopy)"
proof (cases "calculateTaints h instance (scopedDaemonsets h instance)")
  case (Inl err)
  then show ?thesis by (simp add: HandleNode_def)
next
  case (Inr r)
  obtain nodeCopy changes where r: "r = (nodeCopy, changes)" by (cases r) auto
  from calculateTaints_frame Inr r
  have "nodeCopy = instance\<lparr>Taints := Taints nodeCopy\<rparr>" by blast
  then have a: "Annotations nodeCopy = Annotations instance"
    by (metis Node.select_convs(4) Node.surjective Node.update_convs(5))
  show ?thesis
    using Inr r a
    by (auto simp: HandleNode_def lookupAnnotation_def updateIfChanged_returns
             split: option.splits)
qed

text \<open>The input of the witness: node-1 in scope, its annotations nil, no taints, the
  fluentd pod ready.\<close>

theorem HandleNode_panics_iff_witness:
  "Annotations (worker\<lparr>Annotations := None\<rparr>) = None \<and>
   calculateTaints (handler readyPods [(''role'', ''master'')]) (worker\<lparr>Annotations := None\<rparr>)
       (scopedDaemonsets (handler readyPods [(''role'', ''master'')])
          (worker\<lparr>Annotations := None\<rparr>)) =
     Inr (worker\<lparr>Annotations := None\<rparr>, \<lparr>taintsAdded = [], taintsRemoved = []\<rparr>) \<and>
   taintLess (worker\<lparr>Annotations := None\<rparr>) \<and>
   fst (HandleNode (handler readyPods [(''role'', ''master'')]) ''2019-06-01T12:00:00Z''
          (worker\<lparr>Annotations := None\<rparr>) emptyWorld) = Panics"
proof -
  have a: "Annotations (worker\<lparr>Annotations := None\<rparr>) = None"
    by simp
  have c: "calculateTaints (handler readyPods [(''role'', ''master'')])
       (worker\<lparr>Annotations := None\<rparr>)
       (scopedDaemonsets (handler readyPods [(''role'', ''master'')])
          (worker\<lparr>Annotations := None\<rparr>)) =
     Inr (worker\<lparr>Annotations := None\<rparr>, \<lparr>taintsAdded = [], taintsRemoved = []\<rparr>)"
    by (simp add: scenario_defs eval_defs)
  have t: "taintLess (worker\<lparr>Annotations := None\<rparr>)"
    by (simp add: taintLess_def scenario_defs eval_defs)
  from a c t
    HandleNode_panics_iff[of "handler readyPods [(''role'', ''master'')]"
      "''2019-06-01T12:00:00Z''" "worker\<lparr>Annotations := None\<rparr>" emptyWorld]
  show ?thesis by blast
qed

section \<open>The sweep\<close>

lemma sweepLoop_elems:
  "sweepLoop ks (n, c) = (n', c') \<Longrightarrow>
   elems (Taints n') =
     filter (\<lambda>t. \<not> (Key t = taintKey \<and> Value t \<in> set ks)) (elems (Taints n)) \<and>
   taintsAdded c' = taintsAdded c \<and> taintsRemoved c' = taintsRemoved c @ ks"
proof (induction ks arbitrary: n c)
  case Nil
  then show ?case by simp
next
  case (Cons k ks)
  from Cons.prems have
    "sweepLoop ks (n\<lparr>Taints := removeTaint (Taints n) k\<rparr>,
                   c\<lparr>taintsRemoved := taintsRemoved c @ [k]\<rparr>) = (n', c')"
    by simp
  from Cons.IH[OF this] show ?case
    by (auto simp: elems_removeTaint intro: filter_cong)
qed

lemma removeTaint_normal: "removeTaint taints v \<noteq> Some []"
  by (simp add: removeTaint_def Let_def)

lemma sweepLoop_normal:
  "sweepLoop ks (n, c) = (n', c') \<Longrightarrow> ks \<noteq> [] \<Longrightarrow> Taints n' \<noteq> Some []"
proof (induction ks arbitrary: n c)
  case Nil
  then show ?case by simp
next
  case (Cons k ks)
  from Cons.prems have s:
    "sweepLoop ks (n\<lparr>Taints := removeTaint (Taints n) k\<rparr>,
                   c\<lparr>taintsRemoved := taintsRemoved c @ [k]\<rparr>) = (n', c')"
    by simp
  show ?case
  proof (cases "ks = []")
    case True
    with s have "Taints n' = removeTaint (Taints n) k" by auto
    then show ?thesis by (simp add: removeTaint_normal)
  next
    case False
    from Cons.IH[OF s False] show ?thesis .
  qed
qed

lemma slice_eqI:
  "elems s = elems s' \<Longrightarrow> s \<noteq> Some [] \<Longrightarrow> s' \<noteq> Some [] \<Longrightarrow> s = s'"
  by (cases s; cases s'; simp add: elems_def)

text \<open>The node after the sweep depends on the set of the keys swept, not on the
  order in which the map yields them; the order only shows in \<open>taintsRemoved\<close>.\<close>

lemma sweepLoop_order:
  assumes "set ks = set ks'"
  shows "fst (sweepLoop ks (n, c)) = fst (sweepLoop ks' (n, c))"
proof -
  obtain n1 c1 where 1: "sweepLoop ks (n, c) = (n1, c1)" by (cases "sweepLoop ks (n, c)") auto
  obtain n2 c2 where 2: "sweepLoop ks' (n, c) = (n2, c2)" by (cases "sweepLoop ks' (n, c)") auto
  from sweepLoop_elems[OF 1] sweepLoop_elems[OF 2] assms
  have e: "elems (Taints n1) = elems (Taints n2)" by simp
  have "Taints n1 = Taints n2"
  proof (cases "ks = []")
    case True
    with assms have "ks' = []" by simp
    with True 1 2 show ?thesis by simp
  next
    case False
    with assms have ne: "ks' \<noteq> []" by auto
    show ?thesis
      by (rule slice_eqI[OF e sweepLoop_normal[OF 1 False] sweepLoop_normal[OF 2 ne]])
  qed
  with sweepLoop_frame[OF 1] sweepLoop_frame[OF 2] have "n1 = n2" by simp
  with 1 2 show ?thesis by simp
qed

section \<open>Nodes out of scope\<close>

text \<open>
  C5, as stated, fails on the first version. node-0 does not match the include
  selector, so no workload is looked at; the sweep of lines 141-144 runs all the same,
  over the keys collected in lines 110-117, and here it removes the node's only taint:
  the taint list is not returned as it was.
\<close>

theorem out_of_scope_sweep_counterexample:
  "\<not> nodeSelector (handler noPods [(''role'', ''master'')])
        (Labels (master\<lparr>Taints := Some [selfTaint]\<rparr>)) \<and>
   scopedDaemonsets (handler noPods [(''role'', ''master'')])
       (master\<lparr>Taints := Some [selfTaint]\<rparr>) = [] \<and>
   calculateTaints (handler noPods [(''role'', ''master'')]) (master\<lparr>Taints := Some [selfTaint]\<rparr>)
       (scopedDaemonsets (handler noPods [(''role'', ''master'')])
          (master\<lparr>Taints := Some [selfTaint]\<rparr>)) =
     Inr (master\<lparr>Taints := None\<rparr>,
          \<lparr>taintsAdded = [], taintsRemoved = [''nidhogg.uswitch.com'']\<rparr>)"
  by (simp add: scenario_defs eval_defs)

text \<open>
  C5, amended. For a node out of scope (it fails the include selector or matches the
  exclude selector) the second version returns the node as it was, with an empty change
  record, and its \<open>HandleNode\<close> makes no update. \<open>calculateTaints\<close> of the first
  version adds no taint and changes nothing but the taint list; the list it returns is
  the input list with some taints dropped by the sweep, and every taint whose key does
  not carry the prefix is kept, in its place.
\<close>

theorem out_of_scope_pass:
  assumes "\<not> (nodeSelector h (Labels instance) \<and> \<not> nodeRejecter h (Labels instance))"
  shows "calculateTaints_k h instance (scopedDaemonsets h instance) =
           Inr (instance, \<lparr>taintsAdded = [], taintsRemoved = []\<rparr>) \<and>
         HandleNode_k h instance w = (Returns None, w) \<and>
         (\<exists>nodeCopy changes keep.
            calculateTaints h instance (scopedDaemonsets h instance) = Inr (nodeCopy, changes) \<and>
            taintsAdded changes = [] \<and>
            nodeCopy = instance\<lparr>Taints := Taints nodeCopy\<rparr> \<and>
            elems (Taints nodeCopy) = filter keep (elems (Taints instance)) \<and>
            (\<forall>t. \<not> HasPrefix (Key t) taintKey \<longrightarrow> keep t))"
proof (intro conjI)
  from assms have s: "scopedDaemonsets h instance = []"
    by (auto simp: scopedDaemonsets_def)
  then show k: "calculateTaints_k h instance (scopedDaemonsets h instance) =
           Inr (instance, \<lparr>taintsAdded = [], taintsRemoved = []\<rparr>)"
    by (simp add: calculateTaints_k_def)
  then show "HandleNode_k h instance w = (Returns None, w)"
    by (simp add: HandleNode_k_def updateIfChanged_def)
  obtain nodeCopy changes where
    sw: "sweepLoop (collectTaintsToRemove (elems (Taints instance)) [])
          (instance, \<lparr>taintsAdded = [], taintsRemoved = []\<rparr>) = (nodeCopy, changes)"
    by (cases "sweepLoop (collectTaintsToRemove (elems (Taints instance)) [])
          (instance, \<lparr>taintsAdded = [], taintsRemoved = []\<rparr>)") auto
  then have c: "calculateTaints h instance (scopedDaemonsets h instance) = Inr (nodeCopy, changes)"
    by (simp add: calculateTaints_def s)
  let ?keep = "\<lambda>t. \<not> (Key t = taintKey \<and>
                  Value t \<in> set (collectTaintsToRemove (elems (Taints instance)) []))"
  from sweepLoop_elems[OF sw] have
    "elems (Taints nodeCopy) = filter ?keep (elems (Taints instance))"
    and "taintsAdded changes = []" by simp_all
  moreover have "\<forall>t. \<not> HasPrefix (Key t) taintKey \<longrightarrow> ?keep t"
    by (auto simp: HasPrefix_self)
  moreover note sweepLoop_frame[OF sw] c
  ultimately show "\<exists>nodeCopy changes keep.
            calculateTaints h instance (scopedDaemonsets h instance) = Inr (nodeCopy, changes) \<and>
            taintsAdded changes = [] \<and>
            nodeCopy = instance\<lparr>Taints := Taints nodeCopy\<rparr> \<and>
            elems (Taints nodeCopy) = filter keep (elems (Taints instance)) \<and>
            (\<forall>t. \<not> HasPrefix (Key t) taintKey \<longrightarrow> keep t)"
    by blast
qed

theorem out_of_scope_pass_witness:
  "\<not> nodeSelector (handler noPods [(''role'', ''master'')])
        (Labels (master\<lparr>Taints := Some [gpuTaint, fluentdTaint, fluentdTaint_k]\<rparr>)) \<and>
   calculateTaints_k (handler noPods [(''role'', ''master'')])
       (master\<lparr>Taints := Some [gpuTaint, fluentdTaint, fluentdTaint_k]\<rparr>)
       (scopedDaemonsets (handler noPods [(''role'', ''master'')])
          (master\<lparr>Taints := Some [gpuTaint, fluentdTaint, fluentdTaint_k]\<rparr>)) =
     Inr (master\<lparr>Taints := Some [gpuTaint, fluentdTaint, fluentdTaint_k]\<rparr>,
          \<lparr>taintsAdded = [], taintsRemoved = []\<rparr>) \<and>
   HandleNode_k (handler noPods [(''role'', ''master'')])
       (master\<lparr>Taints := Some [gpuTaint, fluentdTaint, fluentdTaint_k]\<rparr>) emptyWorld =
     (Returns None, emptyWorld) \<and>
   (\<exists>nodeCopy changes keep.
      calculateTaints (handler noPods [(''role'', ''master'')])
          (master\<lparr>Taints := Some [gpuTaint, fluentdTaint, fluentdTaint_k]\<rparr>)
          (scopedDaemonsets (handler noPods [(''role'', ''master'')])
             (master\<lparr>Taints := Some [gpuTaint, fluentdTaint, fluentdTaint_k]\<rparr>)) =
        Inr (nodeCopy, changes) \<and>
      taintsAdded changes = [] \<and>
      elems (Taints nodeCopy) = filter keep [gpuTaint, fluentdTaint, fluentdTaint_k] \<and>
      keep gpuTaint)"
proof -
  have s: "\<not> nodeSelector (handler noPods [(''role'', ''master'')])
        (Labels (master\<lparr>Taints := Some [gpuTaint, fluentdTaint, fluentdTaint_k]\<rparr>))"
    by (simp add: scenario_defs)
  then have "\<not> (nodeSelector (handler noPods [(''role'', ''master'')])
        (Labels (master\<lparr>Taints := Some [gpuTaint, fluentdTaint, fluentdTaint_k]\<rparr>)) \<and>
      \<not> nodeRejecter (handler noPods [(''role'', ''master'')])
        (Labels (master\<lparr>Taints := Some [gpuTaint, fluentdTaint, fluentdTaint_k]\<rparr>)))"
    by simp
  note t = out_of_scope_pass[OF this, of emptyWorld]
  have g: "\<not> HasPrefix (Key gpuTaint) taintKey"
    by (simp add: scenario_defs HasPrefix_def)
  from t[THEN conjunct2, THEN conjunct2] g obtain nodeCopy changes keep where
    "calculateTaints (handler noPods [(''role'', ''master'')])
          (master\<lparr>Taints := Some [gpuTaint, fluentdTaint, fluentdTaint_k]\<rparr>)
          (scopedDaemonsets (handler noPods [(''role'', ''master'')])
             (master\<lparr>Taints := Some [gpuTaint, fluentdTaint, fluentdTaint_k]\<rparr>)) =
        Inr (nodeCopy, changes)"
    "taintsAdded changes = []"
    "elems (Taints nodeCopy) =
       filter keep
         (elems (Taints (master\<lparr>Taints := Some [gpuTaint, fluentdTaint, fluentdTaint_k]\<rparr>)))"
    "keep gpuTaint"
    by blast
  then have "\<exists>nodeCopy changes keep.
      calculateTaints (handler noPods [(''role'', ''master'')])
          (master\<lparr>Taints := Some [gpuTaint, fluentdTaint, fluentdTaint_k]\<rparr>)
          (scopedDaemonsets (handler noPods [(''role'', ''master'')])
             (master\<lparr>Taints := Some [gpuTaint, fluentdTaint, fluentdTaint_k]\<rparr>)) =
        Inr (nodeCopy, changes) \<and>
      taintsAdded changes = [] \<and>
      elems (Taints nodeCopy) = filter keep [gpuTaint, fluentdTaint, fluentdTaint_k] \<and>
      keep gpuTaint"
    by (simp add: elems_def) blast
  with s t[THEN conjunct1] t[THEN conjunct2, THEN conjunct1] show ?thesis by simp
qed

section \<open>Scenario A\<close>

text \<open>
  C9, as stated, fails in both versions. With the empty exclude selector of Scenario A
  the rejecter built by \<open>NewHandler\<close> matches every label set, so \<open>HandleNode\<close> takes the
  node as out of scope: no workload is looked at, no taint is added and the change
  record is empty. (The first version then stamps the first-time-ready annotation.)
\<close>

theorem scenario_A_counterexample:
  "nodeRejecter (handler noPods []) (Labels worker) \<and>
   scopedDaemonsets (handler noPods []) worker = [] \<and>
   calculateTaints (handler noPods []) worker (scopedDaemonsets (handler noPods []) worker) =
     Inr (worker, \<lparr>taintsAdded = [], taintsRemoved = []\<rparr>) \<and>
   calculateTaints_k (handler noPods []) worker (scopedDaemonsets (handler noPods []) worker) =
     Inr (worker, \<lparr>taintsAdded = [], taintsRemoved = []\<rparr>) \<and>
   HandleNode_k (handler noPods []) worker emptyWorld = (Returns None, emptyWorld) \<and>
   fst (HandleNode (handler noPods []) ''2019-06-01T12:00:00Z'' worker emptyWorld) = Returns None \<and>
   updated (snd (HandleNode (handler noPods []) ''2019-06-01T12:00:00Z'' worker emptyWorld)) =
     [worker\<lparr>Annotations :=
         Some [(''nidhogg.uswitch.com/first-time-ready'', ''2019-06-01T12:00:00Z'')]\<rparr>]"
  by (simp add: scenario_defs eval_defs handle_defs)

text \<open>
  C9, amended. Scenario A with an exclude selector that does not match the node's labels
  \<^verbatim>\<open>{role: worker}\<close>: the policy is the single workload kube-system/fluentd, the include
  selector is \<^verbatim>\<open>{role: worker}\<close>, node-1 carries no taint and no fluentd pod exists.
  The pass returns the node with the owned taint for fluentd, the change record has
  exactly fluentd's identifier as added and nothing as removed, and \<open>HandleNode\<close>
  updates the node to that. The taint and the identifier are those of the version run.
\<close>

theorem scenario_A_with_exclude:
  assumes "\<not> SelectorFromSet exclude (Labels worker)"
  shows "calculateTaints (handler noPods exclude) worker
           (scopedDaemonsets (handler noPods exclude) worker) =
         Inr (worker\<lparr>Taints := Some [fluentdTaint]\<rparr>,
              \<lparr>taintsAdded = [''kube-system/fluentd''], taintsRemoved = []\<rparr>) \<and>
       calculateTaints_k (handler noPods exclude) worker
           (scopedDaemonsets (handler noPods exclude) worker) =
         Inr (worker\<lparr>Taints := Some [fluentdTaint_k]\<rparr>,
              \<lparr>taintsAdded = [''nidhogg.uswitch.com/kube-system.fluentd''],
                 taintsRemoved = []\<rparr>) \<and>
       fst (HandleNode (handler noPods exclude) now worker emptyWorld) = Returns None \<and>
       updated (snd (HandleNode (handler noPods exclude) now worker emptyWorld)) =
         [worker\<lparr>Taints := Some [fluentdTaint]\<rparr>] \<and>
       fst (HandleNode_k (handler noPods exclude) worker emptyWorld) = Returns None \<and>
       updated (snd (HandleNode_k (handler noPods exclude) worker emptyWorld)) =
         [worker\<lparr>Taints := Some [fluentdTaint_k]\<rparr>]"
  using assms
  by (simp add: scenario_defs eval_defs handle_defs)

theorem scenario_A_with_exclude_witness:
  "\<not> SelectorFromSet [(''role'', ''master'')] (Labels worker) \<and>
   calculateTaints (handler noPods [(''role'', ''master'')]) worker
       (scopedDaemonsets (handler noPods [(''role'', ''master'')]) worker) =
     Inr (worker\<lparr>Taints := Some [fluentdTaint]\<rparr>,
          \<lparr>taintsAdded = [''kube-system/fluentd''], taintsRemoved = []\<rparr>) \<and>
   calculateTaints_k (handler noPods [(''role'', ''master'')]) worker
       (scopedDaemonsets (handler noPods [(''role'', ''master'')]) worker) =
     Inr (worker\<lparr>Taints := Some [fluentdTaint_k]\<rparr>,
          \<lparr>taintsAdded = [''nidhogg.uswitch.com/kube-system.fluentd''],
             taintsRemoved = []\<rparr>) \<and>
   updated (snd (HandleNode (handler noPods [(''role'', ''master'')]) ''2019-06-01T12:00:00Z''
                   worker emptyWorld)) =
     [worker\<lparr>Taints := Some [fluentdTaint]\<rparr>] \<and>
   updated (snd (HandleNode_k (handler noPods [(''role'', ''master'')]) worker emptyWorld)) =
     [worker\<lparr>Taints := Some [fluentdTaint_k]\<rparr>]"
proof -
  have e: "\<not> SelectorFromSet [(''role'', ''master'')] (Labels worker)"
    by (simp add: scenario_defs)
  from e scenario_A_with_exclude[OF e, of "''2019-06-01T12:00:00Z''"]
  show ?thesis by simp
qed

section \<open>The first version and the taints it owns\<close>

text \<open>
  Line 115 stores the key of every taint that carries the prefix in \<^verbatim>\<open>taintsToRemove\<close>.
  The loop over the workloads looks a workload up in that map by \<^verbatim>\<open>namespace/name\<close>
  (lines 119 and 131), which is the value of the taint that \<open>addTaint\<close> writes, and the
  sweep hands the stored keys to \<open>removeTaint\<close>, which compares them with the taints'
  values (line 190). A taint written by \<open>addTaint\<close> is therefore neither found by the
  loop nor removed by the sweep. The general statements come first; the closed theorems
  after them run the code on node-1, which is in scope, with the single workload
  kube-system/fluentd.
\<close>

text \<open>What the map of lines 110-117 holds: keys, all with the prefix.\<close>

lemma collect_set:
  "set (collectTaintsToRemove ts m) =
     set m \<union> {Key t | t. t \<in> set ts \<and> HasPrefix (Key t) taintKey}"
  by (induction ts arbitrary: m) (auto simp: map_store_def)

lemma collect_prefixed:
  "\<forall>k\<in>set (collectTaintsToRemove ts []). HasPrefix k taintKey"
  by (auto simp: collect_set)

lemma unready_podReady:
  "unready h nodeName d \<longleftrightarrow>
     (case getDaemonsetPod h nodeName d of
        Inl err \<Rightarrow> False | Inr None \<Rightarrow> True | Inr (Some p) \<Rightarrow> \<not> podReady p)"
  by (auto simp: unready_def podReady_def podNotReady_def list_ex_iff list_all_iff
           split: sum.splits option.splits)

text \<open>
  When no workload's \<^verbatim>\<open>namespace/name\<close> carries the prefix, the lookup of line 131
  never succeeds: the loop leaves the map alone and appends a taint for every workload
  whose pod is missing or not ready, whatever the node already carries.
\<close>

lemma daemonsetLoop_adds:
  assumes "daemonsetLoop h nodeName ds (n, c, m) = Inr (n', c', m')"
    and "\<forall>d\<in>set ds. \<not> HasPrefix (Namespace d @ ''/'' @ Daemonset.Name d) taintKey"
    and "\<forall>k\<in>set m. HasPrefix k taintKey"
  shows "m' = m \<and>
         taintsAdded c' = taintsAdded c @
           map (\<lambda>d. Namespace d @ ''/'' @ Daemonset.Name d) (filter (unready h nodeName) ds) \<and>
         taintsRemoved c' = taintsRemoved c \<and>
         elems (Taints n') = elems (Taints n) @
           map (\<lambda>d. \<lparr>Key = taintKey, Value = Namespace d @ ''/'' @ Daemonset.Name d,
                      Effect = ''NoSchedule'', TimeAdded = None\<rparr>)
               (filter (unready h nodeName) ds)"
  using assms
proof (induction ds arbitrary: n c m)
  case Nil
  then show ?case by simp
next
  case (Cons d ds)
  from Cons.prems(2) have nd: "\<not> HasPrefix (Namespace d @ ''/'' @ Daemonset.Name d) taintKey"
    and rest: "\<forall>d\<in>set ds. \<not> HasPrefix (Namespace d @ ''/'' @ Daemonset.Name d) taintKey"
    by simp_all
  from nd Cons.prems(3) have notin: "Namespace d @ ''/'' @ Daemonset.Name d \<notin> set m" by blast
  from Cons.prems(1) obtain pod where pod: "getDaemonsetPod h nodeName d = Inr pod"
    by (cases "getDaemonsetPod h nodeName d") (auto simp: Let_def)
  show ?case
  proof (cases "unready h nodeName d")
    case True
    with pod have nr: "\<not> (case pod of None \<Rightarrow> False | Some p \<Rightarrow> podReady p)"
      by (auto simp: unready_podReady split: option.splits)
    from Cons.prems(1) pod nr notin have
      "daemonsetLoop h nodeName ds
         (n\<lparr>Taints := addTaint (Taints n) (Namespace d @ ''/'' @ Daemonset.Name d)\<rparr>,
          c\<lparr>taintsAdded := taintsAdded c @ [Namespace d @ ''/'' @ Daemonset.Name d]\<rparr>, m)
       = Inr (n', c', m')"
      by (simp add: Let_def)
    from Cons.IH[OF this rest Cons.prems(3)] True show ?thesis
      by (simp add: elems_addTaint)
  next
    case False
    with pod have r: "(case pod of None \<Rightarrow> False | Some p \<Rightarrow> podReady p)"
      by (auto simp: unready_podReady split: option.splits)
    from Cons.prems(1) pod r have
      "daemonsetLoop h nodeName ds (n, c, m) = Inr (n', c', m')"
      by (simp add: Let_def)
    from Cons.IH[OF this rest Cons.prems(3)] False show ?thesis by simp
  qed
qed

text \<open>
  The whole pass of the first version under that condition: a taint is added and
  recorded for each workload that is not ready, the keys of the owned taints of the
  input are recorded as removed, and the sweep drops the taints under the shared key
  whose value is one of those keys.
\<close>

theorem calculateTaints_result:
  assumes "calculateTaints h instance ds = Inr (nodeCopy, changes)"
    and "\<forall>d\<in>set ds. \<not> HasPrefix (Namespace d @ ''/'' @ Daemonset.Name d) taintKey"
  shows "taintsAdded changes =
           map (\<lambda>d. Namespace d @ ''/'' @ Daemonset.Name d)
               (filter (unready h (Node.Name instance)) ds) \<and>
         taintsRemoved changes = collectTaintsToRemove (elems (Taints instance)) [] \<and>
         elems (Taints nodeCopy) =
           filter (\<lambda>t. \<not> (Key t = taintKey \<and>
                           (\<exists>t'\<in>set (elems (Taints instance)).
                              HasPrefix (Key t') taintKey \<and> Value t = Key t')))
             (elems (Taints instance) @
              map (\<lambda>d. \<lparr>Key = taintKey, Value = Namespace d @ ''/'' @ Daemonset.Name d,
                         Effect = ''NoSchedule'', TimeAdded = None\<rparr>)
                  (filter (unready h (Node.Name instance)) ds))"
proof -
  let ?m = "collectTaintsToRemove (elems (Taints instance)) []"
  from assms(1) obtain n1 c1 m1 where
    l: "daemonsetLoop h (Node.Name instance) ds
          (instance, \<lparr>taintsAdded = [], taintsRemoved = []\<rparr>, ?m) = Inr (n1, c1, m1)"
    and s: "sweepLoop m1 (n1, c1) = (nodeCopy, changes)"
    by (auto simp: calculateTaints_def Let_def split: sum.splits)
  have pm: "\<forall>k\<in>set ?m. HasPrefix k taintKey"
    by (rule collect_prefixed)
  note b = daemonsetLoop_adds[OF l assms(2) pm]
  note e = sweepLoop_elems[OF s]
  have "set ?m = {Key t | t. t \<in> set (elems (Taints instance)) \<and> HasPrefix (Key t) taintKey}"
    by (simp add: collect_set)
  then have mem: "\<And>v. v \<in> set ?m \<longleftrightarrow>
      (\<exists>t'\<in>set (elems (Taints instance)). HasPrefix (Key t') taintKey \<and> v = Key t')"
    by auto
  from b e show ?thesis
    by (simp add: mem)
qed

theorem calculateTaints_result_witness:
  "\<not> HasPrefix (Namespace fluentd @ ''/'' @ Daemonset.Name fluentd) taintKey \<and>
   calculateTaints (handler noPods [(''role'', ''master'')])
       (worker\<lparr>Taints := Some [fluentdTaint]\<rparr>) [fluentd] =
     Inr (worker\<lparr>Taints := Some [fluentdTaint, fluentdTaint]\<rparr>,
          \<lparr>taintsAdded = [''kube-system/fluentd''],
             taintsRemoved = [''nidhogg.uswitch.com'']\<rparr>) \<and>
   taintsAdded \<lparr>taintsAdded = [''kube-system/fluentd''],
                taintsRemoved = [''nidhogg.uswitch.com'']\<rparr> =
     map (\<lambda>d. Namespace d @ ''/'' @ Daemonset.Name d)
       (filter (unready (handler noPods [(''role'', ''master'')]) ''node-1'') [fluentd])"
proof -
  have c: "calculateTaints (handler noPods [(''role'', ''master'')])
       (worker\<lparr>Taints := Some [fluentdTaint]\<rparr>) [fluentd] =
     Inr (worker\<lparr>Taints := Some [fluentdTaint, fluentdTaint]\<rparr>,
          \<lparr>taintsAdded = [''kube-system/fluentd''],
             taintsRemoved = [''nidhogg.uswitch.com'']\<rparr>)"
    by (simp add: scenario_defs eval_defs)
  have p: "\<not> HasPrefix (Namespace fluentd @ ''/'' @ Daemonset.Name fluentd) taintKey"
    by (simp add: scenario_defs HasPrefix_def)
  then have a: "\<forall>d\<in>set [fluentd].
      \<not> HasPrefix (Namespace d @ ''/'' @ Daemonset.Name d) taintKey" by simp
  have n: "Node.Name (worker\<lparr>Taints := Some [fluentdTaint]\<rparr>) = ''node-1''"
    by (simp add: worker_def)
  from c p calculateTaints_result[OF c a, THEN conjunct1] n show ?thesis by simp
qed

lemma daemonsetLoop_map_shrinks:
  "daemonsetLoop h nodeName ds (n, c, m) = Inr (n', c', m') \<Longrightarrow> set m' \<subseteq> set m"
proof (induction ds arbitrary: n c m)
  case Nil
  then show ?case by simp
next
  case (Cons d ds)
  then show ?case
    by (auto simp: Let_def map_delete_def split: sum.splits if_splits option.splits
             dest!: Cons.IH)
qed

lemma daemonsetLoop_taints_grow:
  "daemonsetLoop h nodeName ds (n, c, m) = Inr (n', c', m') \<Longrightarrow>
   set (elems (Taints n)) \<subseteq> set (elems (Taints n'))"
proof (induction ds arbitrary: n c m)
  case Nil
  then show ?case by simp
next
  case (Cons d ds)
  then show ?case
    by (auto simp: Let_def elems_addTaint split: sum.splits if_splits option.splits
             dest!: Cons.IH)
qed

text \<open>
  For any policy, a pass of the first version keeps every taint of the input whose
  value does not carry the prefix; the taints written by \<open>addTaint\<close> for workloads
  of ordinary namespaces are of this kind.
\<close>

theorem calculateTaints_keeps:
  assumes "calculateTaints h instance ds = Inr (nodeCopy, changes)"
    and "t \<in> set (elems (Taints instance))"
    and "\<not> HasPrefix (Value t) taintKey"
  shows "t \<in> set (elems (Taints nodeCopy))"
proof -
  let ?m = "collectTaintsToRemove (elems (Taints instance)) []"
  from assms(1) obtain n1 c1 m1 where
    l: "daemonsetLoop h (Node.Name instance) ds
          (instance, \<lparr>taintsAdded = [], taintsRemoved = []\<rparr>, ?m) = Inr (n1, c1, m1)"
    and s: "sweepLoop m1 (n1, c1) = (nodeCopy, changes)"
    by (auto simp: calculateTaints_def Let_def split: sum.splits)
  from daemonsetLoop_taints_grow[OF l] assms(2) have t1: "t \<in> set (elems (Taints n1))"
    by auto
  from daemonsetLoop_map_shrinks[OF l] have m1: "set m1 \<subseteq> set ?m" .
  from m1 collect_prefixed have "\<forall>k\<in>set m1. HasPrefix k taintKey" by blast
  with assms(3) have "Value t \<notin> set m1" by blast
  with t1 sweepLoop_elems[OF s] show ?thesis by simp
qed

theorem calculateTaints_keeps_witness:
  "calculateTaints (handler readyPods [(''role'', ''master'')])
       (worker\<lparr>Taints := Some [fluentdTaint]\<rparr>) [fluentd] =
     Inr (worker\<lparr>Taints := Some [fluentdTaint]\<rparr>,
          \<lparr>taintsAdded = [], taintsRemoved = [''nidhogg.uswitch.com'']\<rparr>) \<and>
   \<not> HasPrefix (Value fluentdTaint) taintKey \<and>
   fluentdTaint \<in> set (elems (Taints (worker\<lparr>Taints := Some [fluentdTaint]\<rparr>)))"
proof -
  have c: "calculateTaints (handler readyPods [(''role'', ''master'')])
       (worker\<lparr>Taints := Some [fluentdTaint]\<rparr>) [fluentd] =
     Inr (worker\<lparr>Taints := Some [fluentdTaint]\<rparr>,
          \<lparr>taintsAdded = [], taintsRemoved = [''nidhogg.uswitch.com'']\<rparr>)"
    by (simp add: scenario_defs eval_defs)
  have i: "fluentdTaint \<in> set (elems (Taints (worker\<lparr>Taints := Some [fluentdTaint]\<rparr>)))"
    by (simp add: elems_def)
  have p: "\<not> HasPrefix (Value fluentdTaint) taintKey"
    by (simp add: scenario_defs HasPrefix_def)
  from c p calculateTaints_keeps[OF c i p] show ?thesis by simp
qed

text \<open>
  C1. Idempotence fails for the first version. Without a fluentd pod the first pass
  adds the owned taint for fluentd to the untainted node-1. The second pass, on the
  node the first one returned and with the same policy and pods, adds the taint once
  more and records a removal: the node is not equal to its input and the change record
  is not empty.
\<close>

theorem second_pass_adds_again:
  "calculateTaints (handler noPods [(''role'', ''master'')]) worker
       (scopedDaemonsets (handler noPods [(''role'', ''master'')]) worker) =
     Inr (worker\<lparr>Taints := Some [fluentdTaint]\<rparr>,
          \<lparr>taintsAdded = [''kube-system/fluentd''], taintsRemoved = []\<rparr>) \<and>
   calculateTaints (handler noPods [(''role'', ''master'')]) (worker\<lparr>Taints := Some [fluentdTaint]\<rparr>)
       (scopedDaemonsets (handler noPods [(''role'', ''master'')])
          (worker\<lparr>Taints := Some [fluentdTaint]\<rparr>)) =
     Inr (worker\<lparr>Taints := Some [fluentdTaint, fluentdTaint]\<rparr>,
          \<lparr>taintsAdded = [''kube-system/fluentd''],
             taintsRemoved = [''nidhogg.uswitch.com'']\<rparr>)"
  by (simp add: scenario_defs eval_defs)

text \<open>
  C2. The first version does not keep the invariant of one owned taint per workload.
  node-1 carries one owned taint for fluentd (and a taint of another owner); with the
  fluentd pod missing, the pass returns the node with two owned taints for fluentd.
\<close>

theorem pass_duplicates_owned_taint:
  "length (filter (\<lambda>t. HasPrefix (Key t) taintKey \<and> Value t = ''kube-system/fluentd'')
             [gpuTaint, fluentdTaint]) = 1 \<and>
   calculateTaints (handler noPods [(''role'', ''master'')])
       (worker\<lparr>Taints := Some [gpuTaint, fluentdTaint]\<rparr>)
       (scopedDaemonsets (handler noPods [(''role'', ''master'')])
          (worker\<lparr>Taints := Some [gpuTaint, fluentdTaint]\<rparr>)) =
     Inr (worker\<lparr>Taints := Some [gpuTaint, fluentdTaint, fluentdTaint]\<rparr>,
          \<lparr>taintsAdded = [''kube-system/fluentd''],
             taintsRemoved = [''nidhogg.uswitch.com'']\<rparr>) \<and>
   length (filter (\<lambda>t. HasPrefix (Key t) taintKey \<and> Value t = ''kube-system/fluentd'')
             [gpuTaint, fluentdTaint, fluentdTaint]) = 2"
  by (simp add: scenario_defs eval_defs)

text \<open>
  C3. In the first version a workload whose pod is ready keeps its owned taint. node-1
  carries the owned taint for fluentd, and the fluentd pod on node-1 exists with all
  its containers ready; the pass returns the node with the taint still on it.
\<close>

theorem ready_pod_keeps_taint:
  "scopedDaemonsets (handler readyPods [(''role'', ''master'')])
       (worker\<lparr>Taints := Some [fluentdTaint]\<rparr>) = [fluentd] \<and>
   getDaemonsetPod (handler readyPods [(''role'', ''master'')]) ''node-1'' fluentd =
     Inr (Some fluentdPod) \<and>
   podReady fluentdPod \<and>
   calculateTaints (handler readyPods [(''role'', ''master'')])
       (worker\<lparr>Taints := Some [fluentdTaint]\<rparr>)
       (scopedDaemonsets (handler readyPods [(''role'', ''master'')])
          (worker\<lparr>Taints := Some [fluentdTaint]\<rparr>)) =
     Inr (worker\<lparr>Taints := Some [fluentdTaint]\<rparr>,
          \<lparr>taintsAdded = [], taintsRemoved = [''nidhogg.uswitch.com'']\<rparr>)"
  by (simp add: scenario_defs eval_defs)

text \<open>
  C4. The first version does not remove a stale taint. node-1 carries the owned taint
  of kube-system/kiam, a workload that is not in the policy; the pass returns the node
  with that taint still on it.
\<close>

theorem stale_taint_stays:
  "scopedDaemonsets (handler readyPods [(''role'', ''master'')])
       (worker\<lparr>Taints := Some [kiamTaint]\<rparr>) = [fluentd] \<and>
   calculateTaints (handler readyPods [(''role'', ''master'')])
       (worker\<lparr>Taints := Some [kiamTaint]\<rparr>)
       (scopedDaemonsets (handler readyPods [(''role'', ''master'')])
          (worker\<lparr>Taints := Some [kiamTaint]\<rparr>)) =
     Inr (worker\<lparr>Taints := Some [kiamTaint]\<rparr>,
          \<lparr>taintsAdded = [], taintsRemoved = [''nidhogg.uswitch.com'']\<rparr>)"
  by (simp add: scenario_defs eval_defs)

text \<open>
  C8. The change record of the first version does not list what was added and removed.
  With the fluentd pod ready and node-1 carrying the owned taint for fluentd, the
  record lists \<^verbatim>\<open>nidhogg.uswitch.com\<close> as removed while the returned taint list is the
  input's. With the pod missing and the same node, the record lists fluentd's
  identifier as added although the input already carried that taint.
\<close>

theorem change_record_off:
  "calculateTaints (handler readyPods [(''role'', ''master'')])
       (worker\<lparr>Taints := Some [fluentdTaint, gpuTaint]\<rparr>) [fluentd] =
     Inr (worker\<lparr>Taints := Some [fluentdTaint, gpuTaint]\<rparr>,
          \<lparr>taintsAdded = [], taintsRemoved = [''nidhogg.uswitch.com'']\<rparr>) \<and>
   calculateTaints (handler noPods [(''role'', ''master'')])
       (worker\<lparr>Taints := Some [fluentdTaint, gpuTaint]\<rparr>) [fluentd] =
     Inr (worker\<lparr>Taints := Some [fluentdTaint, gpuTaint, fluentdTaint]\<rparr>,
          \<lparr>taintsAdded = [''kube-system/fluentd''],
             taintsRemoved = [''nidhogg.uswitch.com'']\<rparr>)"
  by (simp add: scenario_defs eval_defs)

section \<open>The second version and the taints it owns\<close>

text \<open>
  The second version looks a workload's taint up by the key it writes. Its pass
  converges, is idempotent and adds no duplicate, provided that workloads of the policy
  that share a taint key agree on readiness. (\<open>taintName_k\<close> joins namespace and name
  with a dot, so two workloads can share a key only if a namespace contains a dot,
  which Kubernetes does not allow.)
\<close>

lemma taintPresent_addTaint_k:
  "taintPresent (n\<lparr>Taints := addTaint_k (Taints n) t\<rparr>) k \<longleftrightarrow> k = t \<or> taintPresent n k"
  by (auto simp: taintPresent_def elems_addTaint_k list_ex_iff)

lemma taintPresent_removeTaint_k:
  "taintPresent (n\<lparr>Taints := removeTaint_k (Taints n) t\<rparr>) k \<longleftrightarrow> k \<noteq> t \<and> taintPresent n k"
  by (auto simp: taintPresent_def elems_removeTaint_k list_ex_iff)

text \<open>One iteration of the loop.\<close>

lemma daemonsetLoop_k_Cons:
  "daemonsetLoop_k h nodeName (d # ds) (n, c) = Inr r \<Longrightarrow>
   \<exists>n1 c1. daemonsetLoop_k h nodeName [d] (n, c) = Inr (n1, c1) \<and>
           daemonsetLoop_k h nodeName ds (n1, c1) = Inr r"
  by (auto simp: Let_def split: sum.splits if_splits option.splits)

lemma step_k_present:
  assumes "daemonsetLoop_k h nodeName [d] (n, c) = Inr (n1, c1)"
  shows "taintPresent n1 k \<longleftrightarrow>
           (if k = taintName_k d then unready h nodeName d else taintPresent n k)"
  using assms
  by (auto simp: Let_def unready_def taintPresent_addTaint_k taintPresent_removeTaint_k
           split: sum.splits if_splits option.splits)

lemma daemonsetLoop_k_other_keys:
  "daemonsetLoop_k h nodeName ds (n, c) = Inr (n', c') \<Longrightarrow> k \<notin> taintName_k ` set ds \<Longrightarrow>
   taintPresent n' k \<longleftrightarrow> taintPresent n k"
proof (induction ds arbitrary: n c)
  case Nil
  then show ?case by simp
next
  case (Cons d ds)
  from daemonsetLoop_k_Cons[OF Cons.prems(1)] obtain n1 c1 where
    1: "daemonsetLoop_k h nodeName [d] (n, c) = Inr (n1, c1)" and
    2: "daemonsetLoop_k h nodeName ds (n1, c1) = Inr (n', c')" by blast
  from Cons.prems(2) have "k \<noteq> taintName_k d" "k \<notin> taintName_k ` set ds" by auto
  with Cons.IH[OF 2] step_k_present[OF 1, of k] show ?case by simp
qed

lemma daemonsetLoop_k_present:
  assumes "daemonsetLoop_k h nodeName ds (n, c) = Inr (n', c')"
    and "\<forall>d\<in>set ds. \<forall>d'\<in>set ds.
           taintName_k d = taintName_k d' \<longrightarrow> unready h nodeName d = unready h nodeName d'"
    and "d \<in> set ds"
  shows "taintPresent n' (taintName_k d) \<longleftrightarrow> unready h nodeName d"
  using assms
proof (induction ds arbitrary: n c d)
  case Nil
  then show ?case by simp
next
  case (Cons x ds)
  from daemonsetLoop_k_Cons[OF Cons.prems(1)] obtain n1 c1 where
    1: "daemonsetLoop_k h nodeName [x] (n, c) = Inr (n1, c1)" and
    2: "daemonsetLoop_k h nodeName ds (n1, c1) = Inr (n', c')" by blast
  have cons: "\<forall>d\<in>set ds. \<forall>d'\<in>set ds.
           taintName_k d = taintName_k d' \<longrightarrow> unready h nodeName d = unready h nodeName d'"
  proof (intro ballI impI)
    fix a b
    assume ab: "a \<in> set ds" "b \<in> set ds" and e: "taintName_k a = taintName_k b"
    from ab have "a \<in> set (x # ds)" "b \<in> set (x # ds)" by simp_all
    from Cons.prems(2)[rule_format, OF this e]
    show "unready h nodeName a = unready h nodeName b" .
  qed
  show ?case
  proof (cases "taintName_k d \<in> taintName_k ` set ds")
    case True
    then obtain d' where d': "d' \<in> set ds" "taintName_k d' = taintName_k d" by auto
    from Cons.IH[OF 2 cons d'(1)]
    have "taintPresent n' (taintName_k d') \<longleftrightarrow> unready h nodeName d'" .
    moreover have "unready h nodeName d' = unready h nodeName d"
    proof -
      from d'(1) have "d' \<in> set (x # ds)" by simp
      from Cons.prems(2)[rule_format, OF this Cons.prems(3) d'(2)] show ?thesis .
    qed
    ultimately show ?thesis using d'(2) by simp
  next
    case False
    with Cons.prems(3) have dx: "d = x" by auto
    from daemonsetLoop_k_other_keys[OF 2 False] step_k_present[OF 1, of "taintName_k d"] dx
    show ?thesis by simp
  qed
qed

text \<open>After a pass of the second version a workload's taint is on the node exactly
  when its pod is missing or not ready.\<close>

theorem calculateTaints_k_converges:
  assumes "calculateTaints_k h instance ds = Inr (nodeCopy, changes)"
    and "\<forall>d\<in>set ds. \<forall>d'\<in>set ds. taintName_k d = taintName_k d' \<longrightarrow>
           unready h (Node.Name instance) d = unready h (Node.Name instance) d'"
    and "d \<in> set ds"
  shows "taintPresent nodeCopy (taintName_k d) \<longleftrightarrow> unready h (Node.Name instance) d"
  using daemonsetLoop_k_present[OF assms(1)[unfolded calculateTaints_k_def] assms(2,3)] .

text \<open>A node on which each workload's taint is present exactly when the workload is
  not ready is a fixed point of the loop.\<close>

lemma daemonsetLoop_k_fixed:
  assumes "\<forall>d\<in>set ds. \<not> isl (getDaemonsetPod h nodeName d)"
    and "\<forall>d\<in>set ds. taintPresent n (taintName_k d) \<longleftrightarrow> unready h nodeName d"
  shows "daemonsetLoop_k h nodeName ds (n, c) = Inr (n, c)"
  using assms
proof (induction ds)
  case Nil
  then show ?case by simp
next
  case (Cons d ds)
  from Cons.prems(1) obtain pod where pod: "getDaemonsetPod h nodeName d = Inr pod"
    by (cases "getDaemonsetPod h nodeName d") auto
  from Cons.prems(2) have p: "taintPresent n (taintName_k d) \<longleftrightarrow> unready h nodeName d"
    by simp
  have "daemonsetLoop_k h nodeName (d # ds) (n, c) = daemonsetLoop_k h nodeName ds (n, c)"
    using pod p by (cases pod) (simp_all add: Let_def unready_def)
  with Cons show ?case by simp
qed

lemma daemonsetLoop_k_lookups:
  "daemonsetLoop_k h nodeName ds st = Inr r \<Longrightarrow>
   \<forall>d\<in>set ds. \<not> isl (getDaemonsetPod h nodeName d)"
proof (induction ds arbitrary: st)
  case Nil
  then show ?case by simp
next
  case (Cons d ds)
  obtain n c where st: "st = (n, c)" by (cases st) auto
  from Cons.prems[unfolded st] daemonsetLoop_k_Cons obtain n1 c1 where
    1: "daemonsetLoop_k h nodeName [d] (n, c) = Inr (n1, c1)" and
    2: "daemonsetLoop_k h nodeName ds (n1, c1) = Inr r" by blast
  from 1 have "\<not> isl (getDaemonsetPod h nodeName d)"
    by (auto simp: Let_def split: sum.splits)
  with Cons.IH[OF 2] show ?case by simp
qed

text \<open>A second pass of the second version, on the node the first one returned and
  with the same policy and pods, returns that node and an empty change record.\<close>

theorem calculateTaints_k_idempotent:
  assumes "calculateTaints_k h instance ds = Inr (nodeCopy, changes)"
    and "\<forall>d\<in>set ds. \<forall>d'\<in>set ds. taintName_k d = taintName_k d' \<longrightarrow>
           unready h (Node.Name instance) d = unready h (Node.Name instance) d'"
  shows "calculateTaints_k h nodeCopy ds =
           Inr (nodeCopy, \<lparr>taintsAdded = [], taintsRemoved = []\<rparr>)"
proof -
  from assms(1) have l:
    "daemonsetLoop_k h (Node.Name instance) ds
       (instance, \<lparr>taintsAdded = [], taintsRemoved = []\<rparr>) = Inr (nodeCopy, changes)"
    by (simp add: calculateTaints_k_def)
  from daemonsetLoop_k_frame[OF l] have nm: "Node.Name nodeCopy = Node.Name instance"
    by (metis Node.select_convs(1) Node.surjective Node.update_convs(5))
  have "\<forall>d\<in>set ds.
          taintPresent nodeCopy (taintName_k d) \<longleftrightarrow> unready h (Node.Name instance) d"
    using daemonsetLoop_k_present[OF l assms(2)] by blast
  from daemonsetLoop_k_fixed[OF daemonsetLoop_k_lookups[OF l] this]
  show ?thesis by (simp add: calculateTaints_k_def nm)
qed

lemma not_present_filter:
  "\<not> taintPresent n k \<Longrightarrow> filter (\<lambda>t. Key t = k) (elems (Taints n)) = []"
  by (auto simp: taintPresent_def list_ex_iff filter_empty_conv)

lemma length_filter_filter_le: "length (filter P (filter Q xs)) \<le> length (filter P xs)"
  by (induction xs) auto

lemma step_k_count:
  assumes "daemonsetLoop_k h nodeName [d] (n, c) = Inr (n1, c1)"
    and "length (filter (\<lambda>t. Key t = k) (elems (Taints n))) \<le> 1"
  shows "length (filter (\<lambda>t. Key t = k) (elems (Taints n1))) \<le> 1"
proof -
  have rm: "length (filter (\<lambda>t. Key t = k) (elems (removeTaint_k (Taints n) x))) \<le> 1" for x
  proof -
    have "length (filter (\<lambda>t. Key t = k) (filter (\<lambda>t. Key t \<noteq> x) (elems (Taints n))))
            \<le> length (filter (\<lambda>t. Key t = k) (elems (Taints n)))"
      by (rule length_filter_filter_le)
    with assms(2) show ?thesis by (simp add: elems_removeTaint_k)
  qed
  have ad: "\<not> taintPresent n x \<Longrightarrow>
            length (filter (\<lambda>t. Key t = k) (elems (addTaint_k (Taints n) x))) \<le> 1" for x
    using assms(2) by (auto simp: elems_addTaint_k not_present_filter)
  from assms(1) show ?thesis
    using rm ad assms(2)
    by (auto simp: Let_def split: sum.splits if_splits option.splits)
qed

lemma daemonsetLoop_k_count:
  "daemonsetLoop_k h nodeName ds (n, c) = Inr (n', c') \<Longrightarrow>
   length (filter (\<lambda>t. Key t = k) (elems (Taints n))) \<le> 1 \<Longrightarrow>
   length (filter (\<lambda>t. Key t = k) (elems (Taints n'))) \<le> 1"
proof (induction ds arbitrary: n c)
  case Nil
  then show ?case by simp
next
  case (Cons d ds)
  from daemonsetLoop_k_Cons[OF Cons.prems(1)] obtain n1 c1 where
    1: "daemonsetLoop_k h nodeName [d] (n, c) = Inr (n1, c1)" and
    2: "daemonsetLoop_k h nodeName ds (n1, c1) = Inr (n', c')" by blast
  from Cons.IH[OF 2 step_k_count[OF 1 Cons.prems(2)]] show ?case .
qed

text \<open>A pass of the second version on a node with at most one taint of a key returns
  a node with at most one taint of that key.\<close>

theorem calculateTaints_k_no_duplicates:
  assumes "calculateTaints_k h instance ds = Inr (nodeCopy, changes)"
    and "length (filter (\<lambda>t. Key t = k) (elems (Taints instance))) \<le> 1"
  shows "length (filter (\<lambda>t. Key t = k) (elems (Taints nodeCopy))) \<le> 1"
  using daemonsetLoop_k_count[OF assms(1)[unfolded calculateTaints_k_def] assms(2)] .

lemma fluentd_unready_noPods:
  "unready (handler noPods [(''role'', ''master'')]) ''node-1'' fluentd"
  by (simp add: unready_def scenario_defs eval_defs)

theorem calculateTaints_k_idempotent_witness:
  "calculateTaints_k (handler noPods [(''role'', ''master'')])
       (worker\<lparr>Taints := Some [gpuTaint]\<rparr>) [fluentd, fluentd] =
     Inr (worker\<lparr>Taints := Some [gpuTaint, fluentdTaint_k]\<rparr>,
          \<lparr>taintsAdded = [''nidhogg.uswitch.com/kube-system.fluentd''], taintsRemoved = []\<rparr>) \<and>
   calculateTaints_k (handler noPods [(''role'', ''master'')])
       (worker\<lparr>Taints := Some [gpuTaint, fluentdTaint_k]\<rparr>) [fluentd, fluentd] =
     Inr (worker\<lparr>Taints := Some [gpuTaint, fluentdTaint_k]\<rparr>,
          \<lparr>taintsAdded = [], taintsRemoved = []\<rparr>)"
proof -
  have c: "calculateTaints_k (handler noPods [(''role'', ''master'')])
       (worker\<lparr>Taints := Some [gpuTaint]\<rparr>) [fluentd, fluentd] =
     Inr (worker\<lparr>Taints := Some [gpuTaint, fluentdTaint_k]\<rparr>,
          \<lparr>taintsAdded = [''nidhogg.uswitch.com/kube-system.fluentd''], taintsRemoved = []\<rparr>)"
    by (simp add: scenario_defs eval_defs)
  have a: "\<forall>d\<in>set [fluentd, fluentd]. \<forall>d'\<in>set [fluentd, fluentd].
             taintName_k d = taintName_k d' \<longrightarrow>
             unready (handler noPods [(''role'', ''master'')])
               (Node.Name (worker\<lparr>Taints := Some [gpuTaint]\<rparr>)) d =
             unready (handler noPods [(''role'', ''master'')])
               (Node.Name (worker\<lparr>Taints := Some [gpuTaint]\<rparr>)) d'"
    by simp
  from c calculateTaints_k_idempotent[OF c a] show ?thesis by simp
qed

theorem calculateTaints_k_converges_witness:
  "calculateTaints_k (handler noPods [(''role'', ''master'')])
       (worker\<lparr>Taints := Some [gpuTaint]\<rparr>) [fluentd] =
     Inr (worker\<lparr>Taints := Some [gpuTaint, fluentdTaint_k]\<rparr>,
          \<lparr>taintsAdded = [''nidhogg.uswitch.com/kube-system.fluentd''], taintsRemoved = []\<rparr>) \<and>
   unready (handler noPods [(''role'', ''master'')]) ''node-1'' fluentd \<and>
   taintPresent (worker\<lparr>Taints := Some [gpuTaint, fluentdTaint_k]\<rparr>) (taintName_k fluentd)"
proof -
  have c: "calculateTaints_k (handler noPods [(''role'', ''master'')])
       (worker\<lparr>Taints := Some [gpuTaint]\<rparr>) [fluentd] =
     Inr (worker\<lparr>Taints := Some [gpuTaint, fluentdTaint_k]\<rparr>,
          \<lparr>taintsAdded = [''nidhogg.uswitch.com/kube-system.fluentd''], taintsRemoved = []\<rparr>)"
    by (simp add: scenario_defs eval_defs)
  have a: "\<forall>d\<in>set [fluentd]. \<forall>d'\<in>set [fluentd].
             taintName_k d = taintName_k d' \<longrightarrow>
             unready (handler noPods [(''role'', ''master'')])
               (Node.Name (worker\<lparr>Taints := Some [gpuTaint]\<rparr>)) d =
             unready (handler noPods [(''role'', ''master'')])
               (Node.Name (worker\<lparr>Taints := Some [gpuTaint]\<rparr>)) d'"
    by simp
  have n: "Node.Name (worker\<lparr>Taints := Some [gpuTaint]\<rparr>) = ''node-1''"
    by (simp add: worker_def)
  from c fluentd_unready_noPods calculateTaints_k_converges[OF c a, of fluentd] n
  show ?thesis by simp
qed

theorem calculateTaints_k_no_duplicates_witness:
  "calculateTaints_k (handler noPods [(''role'', ''master'')])
       (worker\<lparr>Taints := Some [fluentdTaint_k, gpuTaint]\<rparr>) [fluentd] =
     Inr (worker\<lparr>Taints := Some [fluentdTaint_k, gpuTaint]\<rparr>,
          \<lparr>taintsAdded = [], taintsRemoved = []\<rparr>) \<and>
   length (filter (\<lambda>t. Key t = ''nidhogg.uswitch.com/kube-system.fluentd'')
             (elems (Taints (worker\<lparr>Taints := Some [fluentdTaint_k, gpuTaint]\<rparr>)))) \<le> 1"
proof -
  have c: "calculateTaints_k (handler noPods [(''role'', ''master'')])
       (worker\<lparr>Taints := Some [fluentdTaint_k, gpuTaint]\<rparr>) [fluentd] =
     Inr (worker\<lparr>Taints := Some [fluentdTaint_k, gpuTaint]\<rparr>,
          \<lparr>taintsAdded = [], taintsRemoved = []\<rparr>)"
    by (simp add: scenario_defs eval_defs)
  have l: "length (filter (\<lambda>t. Key t = ''nidhogg.uswitch.com/kube-system.fluentd'')
             (elems (Taints (worker\<lparr>Taints := Some [fluentdTaint_k, gpuTaint]\<rparr>)))) \<le> 1"
    by (simp add: scenario_defs elems_def)
  from c calculateTaints_k_no_duplicates[OF c l] show ?thesis by simp
qed

text \<open>
  The change record of the second version: with the same proviso, the keys recorded as
  added are those present on the returned node and not on the input, the keys recorded
  as removed those present on the input and not on the returned node.
\<close>

lemma step_k_changes:
  assumes "daemonsetLoop_k h nodeName [d] (n, c) = Inr (n1, c1)"
  shows "taintsAdded c1 =
           (if unready h nodeName d \<and> \<not> taintPresent n (taintName_k d)
            then taintsAdded c @ [taintName_k d] else taintsAdded c) \<and>
         taintsRemoved c1 =
           (if \<not> unready h nodeName d \<and> taintPresent n (taintName_k d)
            then taintsRemoved c @ [taintName_k d] else taintsRemoved c)"
  using assms
  by (auto simp: Let_def unready_def split: sum.splits if_splits option.splits)

lemma daemonsetLoop_k_record:
  assumes "daemonsetLoop_k h nodeName ds (n, c) = Inr (n', c')"
    and "\<forall>d\<in>set (pre @ ds). \<forall>d'\<in>set (pre @ ds).
           taintName_k d = taintName_k d' \<longrightarrow> unready h nodeName d = unready h nodeName d'"
    and "\<forall>d\<in>set pre. taintPresent n (taintName_k d) \<longleftrightarrow> unready h nodeName d"
    and "\<forall>k. k \<notin> taintName_k ` set pre \<longrightarrow> (taintPresent n k \<longleftrightarrow> taintPresent n0 k)"
    and "\<forall>k. k \<in> set (taintsAdded c) \<longleftrightarrow> \<not> taintPresent n0 k \<and> taintPresent n k"
    and "\<forall>k. k \<in> set (taintsRemoved c) \<longleftrightarrow> taintPresent n0 k \<and> \<not> taintPresent n k"
  shows "(\<forall>k. k \<in> set (taintsAdded c') \<longleftrightarrow> \<not> taintPresent n0 k \<and> taintPresent n' k) \<and>
         (\<forall>k. k \<in> set (taintsRemoved c') \<longleftrightarrow> taintPresent n0 k \<and> \<not> taintPresent n' k)"
  using assms
proof (induction ds arbitrary: n c pre)
  case Nil
  from Nil.prems(1) have "n' = n" "c' = c" by simp_all
  with Nil.prems(5,6) show ?case by simp
next
  case (Cons d ds)
  from daemonsetLoop_k_Cons[OF Cons.prems(1)] obtain n1 c1 where
    1: "daemonsetLoop_k h nodeName [d] (n, c) = Inr (n1, c1)" and
    2: "daemonsetLoop_k h nodeName ds (n1, c1) = Inr (n', c')" by blast
  note P1 = step_k_present[OF 1]
  note C1 = step_k_changes[OF 1]
  let ?t = "taintName_k d"
  let ?u = "unready h nodeName d"
  have seen: "?t \<in> taintName_k ` set pre \<Longrightarrow> taintPresent n ?t \<longleftrightarrow> ?u"
  proof -
    assume "?t \<in> taintName_k ` set pre"
    then obtain x where x: "x \<in> set pre" "taintName_k x = ?t" by auto
    then have "x \<in> set (pre @ d # ds)" "d \<in> set (pre @ d # ds)" by simp_all
    from Cons.prems(2)[rule_format, OF this x(2)]
    have "unready h nodeName x = ?u" .
    with Cons.prems(3)[rule_format, OF x(1)] x(2) show ?thesis by simp
  qed
  have fresh: "taintPresent n ?t \<noteq> ?u \<Longrightarrow> taintPresent n0 ?t = taintPresent n ?t"
    using seen Cons.prems(4) by blast
  have cons': "\<forall>a\<in>set ((pre @ [d]) @ ds). \<forall>b\<in>set ((pre @ [d]) @ ds).
           taintName_k a = taintName_k b \<longrightarrow> unready h nodeName a = unready h nodeName b"
    unfolding append_assoc append_Cons append_Nil by (rule Cons.prems(2))
  have J': "\<forall>x\<in>set (pre @ [d]). taintPresent n1 (taintName_k x) \<longleftrightarrow> unready h nodeName x"
  proof
    fix x assume x: "x \<in> set (pre @ [d])"
    show "taintPresent n1 (taintName_k x) \<longleftrightarrow> unready h nodeName x"
    proof (cases "taintName_k x = ?t")
      case True
      from x have "x \<in> set (pre @ d # ds)" "d \<in> set (pre @ d # ds)" by auto
      from Cons.prems(2)[rule_format, OF this True] have "unready h nodeName x = ?u" .
      with P1[of "taintName_k x"] True show ?thesis by simp
    next
      case False
      with x have "x \<in> set pre" by auto
      with Cons.prems(3) P1[of "taintName_k x"] False show ?thesis by simp
    qed
  qed
  have L': "\<forall>k. k \<notin> taintName_k ` set (pre @ [d]) \<longrightarrow>
              (taintPresent n1 k \<longleftrightarrow> taintPresent n0 k)"
  proof (intro allI impI)
    fix k assume "k \<notin> taintName_k ` set (pre @ [d])"
    then have "k \<noteq> ?t" "k \<notin> taintName_k ` set pre" by auto
    with P1[of k] Cons.prems(4) show "taintPresent n1 k \<longleftrightarrow> taintPresent n0 k" by simp
  qed
  have A': "\<forall>k. k \<in> set (taintsAdded c1) \<longleftrightarrow> \<not> taintPresent n0 k \<and> taintPresent n1 k"
  proof
    fix k
    show "k \<in> set (taintsAdded c1) \<longleftrightarrow> \<not> taintPresent n0 k \<and> taintPresent n1 k"
    proof (cases "k = ?t")
      case False
      with C1 P1[of k] Cons.prems(5) show ?thesis by simp
    next
      case True
      show ?thesis
      proof (cases "taintPresent n ?t = ?u")
        case True
        with \<open>k = ?t\<close> C1 P1[of k] Cons.prems(5) show ?thesis by auto
      next
        case False
        from fresh[OF False] False \<open>k = ?t\<close> C1 P1[of k] Cons.prems(5)
        show ?thesis by auto
      qed
    qed
  qed
  have R': "\<forall>k. k \<in> set (taintsRemoved c1) \<longleftrightarrow> taintPresent n0 k \<and> \<not> taintPresent n1 k"
  proof
    fix k
    show "k \<in> set (taintsRemoved c1) \<longleftrightarrow> taintPresent n0 k \<and> \<not> taintPresent n1 k"
    proof (cases "k = ?t")
      case False
      with C1 P1[of k] Cons.prems(6) show ?thesis by simp
    next
      case True
      show ?thesis
      proof (cases "taintPresent n ?t = ?u")
        case True
        with \<open>k = ?t\<close> C1 P1[of k] Cons.prems(6) show ?thesis by auto
      next
        case False
        from fresh[OF False] False \<open>k = ?t\<close> C1 P1[of k] Cons.prems(6)
        show ?thesis by auto
      qed
    qed
  qed
  from Cons.IH[OF 2 cons' J' L' A' R'] show ?case .
qed

theorem calculateTaints_k_record:
  assumes "calculateTaints_k h instance ds = Inr (nodeCopy, changes)"
    and "\<forall>d\<in>set ds. \<forall>d'\<in>set ds. taintName_k d = taintName_k d' \<longrightarrow>
           unready h (Node.Name instance) d = unready h (Node.Name instance) d'"
  shows "(k \<in> set (taintsAdded changes) \<longleftrightarrow>
            \<not> taintPresent instance k \<and> taintPresent nodeCopy k) \<and>
         (k \<in> set (taintsRemoved changes) \<longleftrightarrow>
            taintPresent instance k \<and> \<not> taintPresent nodeCopy k)"
proof -
  from assms(1) have l:
    "daemonsetLoop_k h (Node.Name instance) ds
       (instance, \<lparr>taintsAdded = [], taintsRemoved = []\<rparr>) = Inr (nodeCopy, changes)"
    by (simp add: calculateTaints_k_def)
  have c: "\<forall>d\<in>set ([] @ ds). \<forall>d'\<in>set ([] @ ds).
           taintName_k d = taintName_k d' \<longrightarrow>
           unready h (Node.Name instance) d = unready h (Node.Name instance) d'"
    unfolding append_Nil by (rule assms(2))
  have "\<forall>d\<in>set []. taintPresent instance (taintName_k d) \<longleftrightarrow>
          unready h (Node.Name instance) d" by simp
  from daemonsetLoop_k_record[OF l c this, of "instance"] show ?thesis by simp
qed

theorem calculateTaints_k_record_witness:
  "calculateTaints_k (handler readyPods [(''role'', ''master'')])
       (worker\<lparr>Taints := Some [fluentdTaint_k, gpuTaint]\<rparr>) [fluentd] =
     Inr (worker\<lparr>Taints := Some [gpuTaint]\<rparr>,
          \<lparr>taintsAdded = [],
             taintsRemoved = [''nidhogg.uswitch.com/kube-system.fluentd'']\<rparr>) \<and>
   taintPresent (worker\<lparr>Taints := Some [fluentdTaint_k, gpuTaint]\<rparr>)
     ''nidhogg.uswitch.com/kube-system.fluentd'' \<and>
   \<not> taintPresent (worker\<lparr>Taints := Some [gpuTaint]\<rparr>)
     ''nidhogg.uswitch.com/kube-system.fluentd''"
proof -
  have c: "calculateTaints_k (handler readyPods [(''role'', ''master'')])
       (worker\<lparr>Taints := Some [fluentdTaint_k, gpuTaint]\<rparr>) [fluentd] =
     Inr (worker\<lparr>Taints := Some [gpuTaint]\<rparr>,
          \<lparr>taintsAdded = [],
             taintsRemoved = [''nidhogg.uswitch.com/kube-system.fluentd'']\<rparr>)"
    by (simp add: scenario_defs eval_defs)
  have a: "\<forall>d\<in>set [fluentd]. \<forall>d'\<in>set [fluentd].
             taintName_k d = taintName_k d' \<longrightarrow>
             unready (handler readyPods [(''role'', ''master'')])
               (Node.Name (worker\<lparr>Taints := Some [fluentdTaint_k, gpuTaint]\<rparr>)) d =
             unready (handler readyPods [(''role'', ''master'')])
               (Node.Name (worker\<lparr>Taints := Some [fluentdTaint_k, gpuTaint]\<rparr>)) d'"
    by simp
  from c calculateTaints_k_record[OF c a, of "''nidhogg.uswitch.com/kube-system.fluentd''"]
  show ?thesis by simp
qed

text \<open>\<open>HandleNode\<close> of the second version, called on the node a pass returned, finds
  nothing to change: it returns without an update and without an event.\<close>

theorem HandleNode_k_second_pass:
  assumes "calculateTaints_k h instance (scopedDaemonsets h instance) = Inr (nodeCopy, changes)"
    and "\<forall>d\<in>set (scopedDaemonsets h instance). \<forall>d'\<in>set (scopedDaemonsets h instance).
           taintName_k d = taintName_k d' \<longrightarrow>
           unready h (Node.Name instance) d = unready h (Node.Name instance) d'"
  shows "HandleNode_k h nodeCopy w = (Returns None, w)"
proof -
  from assms(1) have
    "daemonsetLoop_k h (Node.Name instance) (scopedDaemonsets h instance)
       (instance, \<lparr>taintsAdded = [], taintsRemoved = []\<rparr>) = Inr (nodeCopy, changes)"
    by (simp add: calculateTaints_k_def)
  from daemonsetLoop_k_frame[OF this] have "Labels nodeCopy = Labels instance"
    by (metis Node.select_convs(3) Node.surjective Node.update_convs(5))
  then have s: "scopedDaemonsets h nodeCopy = scopedDaemonsets h instance"
    by (simp add: scopedDaemonsets_def)
  from calculateTaints_k_idempotent[OF assms(1) assms(2)] s
  show ?thesis by (simp add: HandleNode_k_def updateIfChanged_def)
qed

theorem HandleNode_k_second_pass_witness:
  "calculateTaints_k (handler noPods [(''role'', ''master'')]) worker
       (scopedDaemonsets (handler noPods [(''role'', ''master'')]) worker) =
     Inr (worker\<lparr>Taints := Some [fluentdTaint_k]\<rparr>,
          \<lparr>taintsAdded = [''nidhogg.uswitch.com/kube-system.fluentd''],
             taintsRemoved = []\<rparr>) \<and>
   HandleNode_k (handler noPods [(''role'', ''master'')])
       (worker\<lparr>Taints := Some [fluentdTaint_k]\<rparr>) emptyWorld = (Returns None, emptyWorld)"
proof -
  have s: "scopedDaemonsets (handler noPods [(''role'', ''master'')]) worker = [fluentd]"
    by (simp add: scenario_defs)
  have c: "calculateTaints_k (handler noPods [(''role'', ''master'')]) worker
       (scopedDaemonsets (handler noPods [(''role'', ''master'')]) worker) =
     Inr (worker\<lparr>Taints := Some [fluentdTaint_k]\<rparr>,
          \<lparr>taintsAdded = [''nidhogg.uswitch.com/kube-system.fluentd''],
             taintsRemoved = []\<rparr>)"
    by (simp add: scenario_defs eval_defs)
  have a: "\<forall>d\<in>set (scopedDaemonsets (handler noPods [(''role'', ''master'')]) worker).
           \<forall>d'\<in>set (scopedDaemonsets (handler noPods [(''role'', ''master'')]) worker).
             taintName_k d = taintName_k d' \<longrightarrow>
             unready (handler noPods [(''role'', ''master'')]) (Node.Name worker) d =
             unready (handler noPods [(''role'', ''master'')]) (Node.Name worker) d'"
    unfolding s by simp
  from c HandleNode_k_second_pass[OF c a, of emptyWorld] show ?thesis by simp
qed

text \<open>The second version has no sweep: a taint whose key is not the key of a workload
  of the policy stays on the node, also when it carries the prefix.\<close>

theorem calculateTaints_k_no_sweep:
  assumes "calculateTaints_k h instance ds = Inr (nodeCopy, changes)"
    and "k \<notin> taintName_k ` set ds"
  shows "taintPresent nodeCopy k \<longleftrightarrow> taintPresent instance k"
  using daemonsetLoop_k_other_keys[OF assms(1)[unfolded calculateTaints_k_def] assms(2)] .

theorem calculateTaints_k_no_sweep_witness:
  "calculateTaints_k (handler readyPods [(''role'', ''master'')])
       (worker\<lparr>Taints := Some [kiamTaint_k]\<rparr>) [fluentd] =
     Inr (worker\<lparr>Taints := Some [kiamTaint_k]\<rparr>, \<lparr>taintsAdded = [], taintsRemoved = []\<rparr>) \<and>
   Key kiamTaint_k \<notin> taintName_k ` set [fluentd] \<and>
   taintPresent (worker\<lparr>Taints := Some [kiamTaint_k]\<rparr>) (Key kiamTaint_k)"
proof -
  have c: "calculateTaints_k (handler readyPods [(''role'', ''master'')])
       (worker\<lparr>Taints := Some [kiamTaint_k]\<rparr>) [fluentd] =
     Inr (worker\<lparr>Taints := Some [kiamTaint_k]\<rparr>, \<lparr>taintsAdded = [], taintsRemoved = []\<rparr>)"
    by (simp add: scenario_defs eval_defs)
  have n: "Key kiamTaint_k \<notin> taintName_k ` set [fluentd]"
    by (simp add: scenario_defs eval_defs)
  have p: "taintPresent (worker\<lparr>Taints := Some [kiamTaint_k]\<rparr>) (Key kiamTaint_k)"
    by (simp add: taintPresent_def elems_def)
  from c n p calculateTaints_k_no_sweep[OF c n] show ?thesis by simp
qed

end
